theory Spec2Isabelle
  imports Complex_Main
begin

section \<open>Content-addressed deduplicator (midi_deduplicator.py)\<close>

text \<open>
  The deduplicator reads files through three operating-system calls:
  \<^verbatim>\<open>os.path.exists\<close>, \<^verbatim>\<open>open(...).read\<close> and \<^verbatim>\<open>os.path.getsize\<close>. They are the
  fields of \<open>os_env\<close>; a read or a size query that raises is \<open>None\<close>.
  The digest function (\<^verbatim>\<open>hashlib.sha256(...).hexdigest()\<close>) is the parameter \<open>sha\<close>.
\<close>

type_synonym bytes = string

record os_env =
  path_exists :: "string \<Rightarrow> bool"
  read_bytes :: "string \<Rightarrow> bytes option"
  getsize :: "string \<Rightarrow> nat option"

record MidiDeduplicator =
  file_hashes :: "string \<rightharpoonup> string"
  duplicates_found :: nat
  bytes_saved :: nat

definition init_deduplicator :: MidiDeduplicator where
  "init_deduplicator = \<lparr>file_hashes = Map.empty, duplicates_found = 0, bytes_saved = 0\<rparr>"

definition compute_file_hash :: "(bytes \<Rightarrow> string) \<Rightarrow> os_env \<Rightarrow> string \<Rightarrow> string option" where
  "compute_file_hash sha os file_path =
     (if \<not> path_exists os file_path then None
      else (case read_bytes os file_path of
              None \<Rightarrow> None
            | Some content \<Rightarrow> Some (sha content)))"

text \<open>
  \<^verbatim>\<open>if not file_hash\<close> is true for \<^verbatim>\<open>None\<close> and for the empty string.
  The result is the returned pair together with the updated deduplicator.
\<close>

definition register_file ::
  "(bytes \<Rightarrow> string) \<Rightarrow> os_env \<Rightarrow> string \<Rightarrow> MidiDeduplicator
     \<Rightarrow> (bool \<times> string option) \<times> MidiDeduplicator" where
  "register_file sha os file_path self =
     (case compute_file_hash sha os file_path of
        None \<Rightarrow> ((False, None), self)
      | Some file_hash \<Rightarrow>
          if file_hash = [] then ((False, None), self)
          else (case file_hashes self file_hash of
                  Some canonical_path \<Rightarrow>
                    ((True, Some canonical_path),
                     self\<lparr>duplicates_found := duplicates_found self + 1,
                          bytes_saved := (case getsize os file_path of
                                            Some n \<Rightarrow> bytes_saved self + n
                                          | None \<Rightarrow> bytes_saved self)\<rparr>)
                | None \<Rightarrow>
                    ((False, None),
                     self\<lparr>file_hashes := (file_hashes self)(file_hash \<mapsto> file_path)\<rparr>)))"

text \<open>A run: any sequence of further registrations, each seeing its own file system.\<close>

fun register_all ::
  "(bytes \<Rightarrow> string) \<Rightarrow> (os_env \<times> string) list \<Rightarrow> MidiDeduplicator \<Rightarrow> MidiDeduplicator" where
  "register_all sha [] self = self"
| "register_all sha ((os, file_path) # calls) self =
     register_all sha calls (snd (register_file sha os file_path self))"

section \<open>Silence trimmer (midi_trimmer.py)\<close>

text \<open>
  The score object of the \<^verbatim>\<open>symusic\<close> library: every timed entity has a \<open>time\<close>
  attribute (a Python integer); a note also has a \<open>duration\<close>. The other attributes are
  never touched by the trimmer and are carried as payload.
\<close>

record Timed =
  time :: int

record Note = Timed +
  duration :: int
  pitch :: int
  velocity :: int

record Event = Timed +
  payload :: "int list"

record Lyric = Timed +
  lyric_text :: string

text \<open>\<open>lyrics = None\<close>: the track object has no attribute \<^verbatim>\<open>lyrics\<close>.\<close>

record Track =
  track_notes :: "Note list"
  controls :: "Event list"
  pitch_bends :: "Event list"
  pedals :: "Event list"
  lyrics :: "Lyric list option"

record Score =
  tracks :: "Track list"
  tempos :: "Event list"
  time_signatures :: "Event list"
  key_signatures :: "Event list"

record TrimStatistics =
  file_path :: string
  original_duration_ticks :: int
  trimmed_start_ticks :: int
  trimmed_end_ticks :: int
  new_duration_ticks :: int
  note_count :: int
  first_note_time :: int
  last_note_time :: int
  tempo_count :: int
  time_sig_count :: int
  success :: bool
  error_message :: "string option"

record MIDITrimmer =
  min_trim_ticks :: int
  trim_trailing :: bool

text \<open>The body of the inner loop of \<^verbatim>\<open>find_note_boundaries\<close>, for one note.\<close>

definition note_boundary :: "int option \<times> int option \<Rightarrow> Note \<Rightarrow> int option \<times> int option" where
  "note_boundary acc n =
     (let note_start = time n;
          note_end = time n + duration n;
          first_note = (case fst acc of
                          None \<Rightarrow> Some note_start
                        | Some f \<Rightarrow> if note_start < f then Some note_start else Some f);
          last_note = (case snd acc of
                         None \<Rightarrow> Some note_end
                       | Some l \<Rightarrow> if note_end > l then Some note_end else Some l)
      in (first_note, last_note))"

definition find_note_boundaries :: "Score \<Rightarrow> int option \<times> int option" where
  "find_note_boundaries score =
     foldl (\<lambda>acc track. if track_notes track = [] then acc else foldl note_boundary acc (track_notes track))
       (None, None) (tracks score)"

definition count_notes :: "Score \<Rightarrow> int" where
  "count_notes score = sum_list (map (\<lambda>track. int (length (track_notes track))) (tracks score))"

text \<open>\<^verbatim>\<open>x.time = max(0, x.time - shift_ticks)\<close>, for any timed entity.\<close>

definition shift_time :: "int \<Rightarrow> 'a Timed_scheme \<Rightarrow> 'a Timed_scheme" where
  "shift_time shift_ticks x = x\<lparr>time := max 0 (time x - shift_ticks)\<rparr>"

definition shift_track :: "int \<Rightarrow> Track \<Rightarrow> Track" where
  "shift_track shift_ticks track =
     track\<lparr>track_notes := map (shift_time shift_ticks) (track_notes track),
           controls := map (shift_time shift_ticks) (controls track),
           pitch_bends := map (shift_time shift_ticks) (pitch_bends track),
           pedals := map (shift_time shift_ticks) (pedals track)\<rparr>"

definition shift_lyrics :: "int \<Rightarrow> Track \<Rightarrow> Track" where
  "shift_lyrics shift_ticks track =
     (case lyrics track of
        None \<Rightarrow> track
      | Some ls \<Rightarrow> track\<lparr>lyrics := Some (map (shift_time shift_ticks) ls)\<rparr>)"

definition shift_events :: "Score \<Rightarrow> int \<Rightarrow> Score" where
  "shift_events score shift_ticks =
     (if shift_ticks = 0 then score
      else
        let score1 = score\<lparr>tracks := map (shift_track shift_ticks) (tracks score)\<rparr>;
            score2 = score1\<lparr>tempos := map (shift_time shift_ticks) (tempos score1)\<rparr>;
            score3 = score2\<lparr>time_signatures := map (shift_time shift_ticks) (time_signatures score2)\<rparr>;
            score4 = score3\<lparr>key_signatures := map (shift_time shift_ticks) (key_signatures score3)\<rparr>
        in score4\<lparr>tracks := map (shift_lyrics shift_ticks) (tracks score4)\<rparr>)"

text \<open>
  \<^verbatim>\<open>trim_file\<close> between loading the score and saving it. \<open>score_end\<close> is the
  library's \<^verbatim>\<open>Score.end()\<close>. The result is the score as it is afterwards, the
  statistics the function returns when saving does not fail, and whether notes were found
  (when none is found the function returns at once, before saving).
\<close>

definition trim_score ::
  "MIDITrimmer \<Rightarrow> (Score \<Rightarrow> int) \<Rightarrow> string \<Rightarrow> Score \<Rightarrow> Score \<times> TrimStatistics \<times> bool" where
  "trim_score self score_end input_path score =
     (let original_duration = score_end score;
          bounds = find_note_boundaries score;
          n_notes = count_notes score
      in case bounds of
           (Some first_note, Some last_note) \<Rightarrow>
             (let trim_start = (if first_note \<ge> min_trim_ticks self then first_note else 0);
                  trailing_space = original_duration - last_note;
                  trim_end = (if trim_trailing self \<and> trailing_space \<ge> min_trim_ticks self
                              then trailing_space else 0);
                  score' = (if trim_start > 0 then shift_events score trim_start else score);
                  new_duration = score_end score'
              in (score',
                  \<lparr>file_path = input_path,
                   original_duration_ticks = original_duration,
                   trimmed_start_ticks = trim_start,
                   trimmed_end_ticks = trim_end,
                   new_duration_ticks = new_duration,
                   note_count = n_notes,
                   first_note_time = first_note,
                   last_note_time = last_note,
                   tempo_count = int (length (tempos score')),
                   time_sig_count = int (length (time_signatures score')),
                   success = True,
                   error_message = None\<rparr>,
                  True))
         | _ \<Rightarrow>
             (score,
              \<lparr>file_path = input_path,
               original_duration_ticks = original_duration,
               trimmed_start_ticks = 0,
               trimmed_end_ticks = 0,
               new_duration_ticks = original_duration,
               note_count = 0,
               first_note_time = 0,
               last_note_time = 0,
               tempo_count = int (length (tempos score)),
               time_sig_count = int (length (time_signatures score)),
               success = False,
               error_message = Some ''No notes found in file''\<rparr>,
              False))"

text \<open>The statistics of the \<^verbatim>\<open>except\<close> branch.\<close>

definition error_statistics :: "string \<Rightarrow> string \<Rightarrow> TrimStatistics" where
  "error_statistics input_path msg =
     \<lparr>file_path = input_path,
      original_duration_ticks = 0,
      trimmed_start_ticks = 0,
      trimmed_end_ticks = 0,
      new_duration_ticks = 0,
      note_count = 0,
      first_note_time = 0,
      last_note_time = 0,
      tempo_count = 0,
      time_sig_count = 0,
      success = False,
      error_message = Some msg\<rparr>"

text \<open>
  The file system as the trimmer sees it: \<open>files\<close> maps a path to the score the
  library decodes from it, or to the message of the exception that loading raises;
  \<open>dump_error\<close> is the message of the exception that creating the directory of a path
  or saving to the path raises, if any.
  \<^verbatim>\<open>trim_file\<close> returns the statistics; the second component is the file system
  afterwards.
\<close>

record file_system =
  files :: "string \<Rightarrow> string + Score"
  dump_error :: "string \<Rightarrow> string option"

definition trim_file ::
  "MIDITrimmer \<Rightarrow> (Score \<Rightarrow> int) \<Rightarrow> file_system \<Rightarrow> string \<Rightarrow> string option
     \<Rightarrow> TrimStatistics \<times> file_system" where
  "trim_file self score_end fs input_path output_path =
     (case files fs input_path of
        Inl msg \<Rightarrow> (error_statistics input_path msg, fs)
      | Inr score \<Rightarrow>
          (case trim_score self score_end input_path score of
             (score', stats, found_notes) \<Rightarrow>
               if \<not> found_notes then (stats, fs)
               else (case output_path of
                       None \<Rightarrow> (stats, fs)
                     | Some out \<Rightarrow>
                         (case dump_error fs out of
                            Some msg \<Rightarrow> (error_statistics input_path msg, fs)
                          | None \<Rightarrow> (stats, fs\<lparr>files := (files fs)(out := Inr score')\<rparr>)))))"

section \<open>Batch processor: trimming a saved track (batch_processor.py)\<close>

text \<open>
  \<^verbatim>\<open>str.replace(old, new)\<close> for a non-empty \<open>old\<close>: every occurrence of \<open>old\<close>, from the
  left and without overlap, is replaced by \<open>new\<close>.
\<close>

fun str_replace :: "string \<Rightarrow> string \<Rightarrow> string \<Rightarrow> string" where
  "str_replace old new [] = []"
| "str_replace old new (c # cs) =
     (if old \<noteq> [] \<and> take (length old) (c # cs) = old
      then new @ str_replace old new (drop (length old - 1) cs)
      else c # str_replace old new cs)"

text \<open>
  A path at which there is no file is a path from which nothing loads: its entry in \<open>files\<close>
  is the exception of the loader. \<^verbatim>\<open>os.rename\<close> and \<^verbatim>\<open>os.remove\<close> are modelled
  where the file they are given exists.
\<close>

definition no_file :: "string + Score" where
  "no_file = Inl ''No such file or directory''"

definition os_rename :: "file_system \<Rightarrow> string \<Rightarrow> string \<Rightarrow> file_system" where
  "os_rename fs src dst =
     (if src = dst then fs else fs\<lparr>files := (files fs)(dst := files fs src, src := no_file)\<rparr>)"

definition os_remove :: "file_system \<Rightarrow> string \<Rightarrow> file_system" where
  "os_remove fs path = fs\<lparr>files := (files fs)(path := no_file)\<rparr>"

text \<open>
  The trimming step of \<^verbatim>\<open>_process_single_file_worker\<close> for a track that
  \<^verbatim>\<open>save_track\<close> has written to \<open>output_path\<close>: the clip is renamed to a temporary path,
  trimmed from there into \<open>output_path\<close>, and the temporary file is removed. The result is
  whether the track goes on to be logged (a failed trim skips the rest of the loop body)
  and the file system afterwards.
\<close>

definition trim_saved_track ::
  "MIDITrimmer \<Rightarrow> (Score \<Rightarrow> int) \<Rightarrow> file_system \<Rightarrow> string \<Rightarrow> bool \<times> file_system" where
  "trim_saved_track trimmer score_end fs output_path =
     (let temp_path = str_replace ''.mid'' ''_temp.mid'' output_path;
          fs1 = os_rename fs output_path temp_path;
          (trim_stats, fs2) = trim_file trimmer score_end fs1 temp_path (Some output_path);
          fs3 = os_remove fs2 temp_path
      in (success trim_stats, fs3))"

section \<open>Track extractor (midi_extractor.py)\<close>

text \<open>
  A message of the \<^verbatim>\<open>mido\<close> library, by its \<^verbatim>\<open>type\<close>: note_on and note_off
  (channel, note, velocity, time), program_change (channel, program, time), track_name
  (name, time), set_tempo (tempo, time), any other message that has a channel (channel,
  time) and any other message that has none (time). \<open>time\<close> is the delta time in ticks.
\<close>

datatype message =
    Note_on nat nat nat int
  | Note_off nat nat nat int
  | Program_change nat nat int
  | Track_name string int
  | Set_tempo nat int
  | Channel_message nat int
  | Meta_message int

fun is_note_event :: "message \<Rightarrow> bool" where
  "is_note_event (Note_on ch n v t) = True"
| "is_note_event (Note_off ch n v t) = True"
| "is_note_event m = False"

fun msg_channel :: "message \<Rightarrow> nat option" where
  "msg_channel (Note_on ch n v t) = Some ch"
| "msg_channel (Note_off ch n v t) = Some ch"
| "msg_channel (Program_change ch p t) = Some ch"
| "msg_channel (Channel_message ch t) = Some ch"
| "msg_channel (Track_name s t) = None"
| "msg_channel (Set_tempo u t) = None"
| "msg_channel (Meta_message t) = None"

fun msg_program :: "message \<Rightarrow> nat option" where
  "msg_program (Program_change ch p t) = Some p"
| "msg_program m = None"

fun msg_name :: "message \<Rightarrow> string option" where
  "msg_name (Track_name s t) = Some s"
| "msg_name m = None"


definition GM_INSTRUMENTS :: "string list" where
  "GM_INSTRUMENTS =
    [''Acoustic Piano'', ''Bright Piano'', ''Electric Piano 1'', ''Electric Piano 2'',
     ''Honky Tonk Piano'', ''Electric Piano'', ''Harpsichord'', ''Clavier'',
     ''Celesta'', ''Glockenspiel'', ''Music Box'', ''Vibraphone'',
     ''Marimba'', ''Xylophone'', ''Tubular Bells'', ''Dulcimer'',
     ''Drawbar Organ'', ''Percussive Organ'', ''Rock Organ'', ''Church Organ'',
     ''Reed Organ'', ''Accordion'', ''Harmonica'', ''Tango Accordion'',
     ''Acoustic Nylon Guitar'', ''Acoustic Steel Guitar'', ''Electric Jazz Guitar'',
     ''Electric Clean Guitar'', ''Electric Muted Guitar'', ''Overdriven Guitar'',
     ''Distortion Guitar'', ''Guitar Harmonics'',
     ''Acoustic Bass'', ''Electric Finger Bass'', ''Electric Pick Bass'',
     ''Fretless Bass'', ''Slap Bass 1'', ''Slap Bass 2'',
     ''Synth Bass 1'', ''Synth Bass 2'',
     ''Violin'', ''Viola'', ''Cello'', ''Contrabass'',
     ''Tremolo Strings'', ''Pizzicato Strings'', ''Orchestral Harp'', ''Timpani'',
     ''String Ensemble 1'', ''String Ensemble 2'', ''Synth Strings 1'', ''Synth Strings 2'',
     ''Choir Aahs'', ''Choir Oohs'', ''Synth Voice'', ''Orchestra Hit'',
     ''Trumpet'', ''Trombone'', ''Tuba'', ''Muted Trumpet'',
     ''French Horn'', ''Brass Section'', ''Synth Brass 1'', ''Synth Brass 2'',
     ''Soprano Sax'', ''Alto Sax'', ''Tenor Sax'', ''Baritone Sax'',
     ''Oboe'', ''English Horn'', ''Bassoon'', ''Clarinet'',
     ''Piccolo'', ''Flute'', ''Recorder'', ''Pan Flute'',
     ''Bottle Blow'', ''Shakuhachi'', ''Whistle'', ''Ocarina'',
     ''Lead Synth Square'', ''Lead Synth Sawtooth'', ''Lead Synth Calliope'',
     ''Lead Synth Chiff'', ''Lead Synth Charang'', ''Lead Synth Voice'',
     ''Lead Synth Fifths'', ''Lead Synth Bass + Lead'',
     ''Pad Synth New Age'', ''Pad Synth Warm'', ''Pad Synth Polysynth'',
     ''Pad Synth Choir'', ''Pad Synth Bowed'', ''Pad Synth Metallic'',
     ''Pad Synth Halo'', ''Pad Synth Sweep'',
     ''Fx Synth Rain'', ''Fx Synth Soundtrack'', ''Fx Synth Crystal'',
     ''Fx Synth Atmosphere'', ''Fx Synth Brightness'',
     ''Fx Synth Goblins'', ''Fx Synth Echoes'', ''Fx Synth Sci Fi'',
     ''Sitar'', ''Banjo'', ''Shamisen'', ''Koto'',
     ''Kalimba'', ''Bagpipe'', ''Fiddle'', ''Shanai'',
     ''Tinkle Bell'', ''Agogo'', ''Steel Drums'', ''Woodblock'',
     ''Taiko Drum'', ''Melodic Tom'', ''Synth Drum'', ''Reverse Cymbal'',
     ''Guitar Fret Noise'', ''Breath Noise'', ''Seashore'', ''Bird Tweet'',
     ''Telephone Ring'', ''Helicopter'', ''Applause'', ''Gunshot'']"

text \<open>\<^verbatim>\<open>GM_INSTRUMENTS.get(program, f"Instrument {program}")\<close>; the table's keys are 0 to 127.\<close>

fun str_nat :: "nat \<Rightarrow> string" where
  "str_nat n =
     (if n < 10 then [char_of (48 + n)]
      else str_nat (n div 10) @ [char_of (48 + n mod 10)])"

definition gm_get :: "nat \<Rightarrow> string" where
  "gm_get program =
     (if program < length GM_INSTRUMENTS then GM_INSTRUMENTS ! program
      else ''Instrument '' @ str_nat program)"

text \<open>The local variables of \<^verbatim>\<open>_extract_track_data\<close>, and its loop with the early exit.\<close>

record scan_state =
  has_notes :: bool
  track_name :: string
  instrument_name :: string
  program_change :: "nat option"
  is_percussion :: bool
  found_track_name :: bool
  found_program_change :: bool

definition scan_init :: scan_state where
  "scan_init =
     \<lparr>has_notes = False, track_name = '''', instrument_name = ''Unknown'',
      program_change = None, is_percussion = False,
      found_track_name = False, found_program_change = False\<rparr>"

definition scan_message :: "scan_state \<Rightarrow> message \<Rightarrow> scan_state" where
  "scan_message st msg =
     (let st1 = (if \<not> has_notes st \<and> is_note_event msg then st\<lparr>has_notes := True\<rparr> else st);
          st2 = (case msg_name msg of
                   Some nm \<Rightarrow> if \<not> found_track_name st1
                              then st1\<lparr>track_name := nm, found_track_name := True\<rparr> else st1
                 | None \<Rightarrow> st1);
          st3 = (case msg_program msg of
                   Some p \<Rightarrow> if \<not> found_program_change st2
                             then st2\<lparr>program_change := Some p, instrument_name := gm_get p,
                                      found_program_change := True\<rparr>
                             else st2
                 | None \<Rightarrow> st2)
      in if \<not> is_percussion st3 \<and> msg_channel msg = Some 9
         then st3\<lparr>is_percussion := True\<rparr> else st3)"

fun scan_track :: "scan_state \<Rightarrow> message list \<Rightarrow> scan_state" where
  "scan_track st [] = st"
| "scan_track st (msg # rest) =
     (let st' = scan_message st msg
      in if has_notes st' \<and> found_track_name st' \<and> found_program_change st' then st'
         else scan_track st' rest)"

record track_data =
  track_index :: nat
  td_track_name :: string
  instrument :: string
  td_program_change :: "nat option"
  midi_data :: "message list"

text \<open>
  \<^verbatim>\<open>_extract_track_data\<close>. \<^verbatim>\<open>not program_change\<close> is true when no program change was
  found and when the program number found is 0.
\<close>

definition extract_track_data :: "message list \<Rightarrow> nat \<Rightarrow> track_data option" where
  "extract_track_data track track_idx =
     (let st = scan_track scan_init track
      in if \<not> has_notes st then None
         else Some \<lparr>track_index = track_idx,
                    td_track_name = track_name st,
                    instrument =
                      (if (program_change st = None \<or> program_change st = Some 0) \<and> is_percussion st
                       then ''Percussion'' else instrument_name st),
                    td_program_change = program_change st,
                    midi_data = track\<rparr>)"






text \<open>The program number of the first program-change event of a track, if any.\<close>

definition first_program :: "message list \<Rightarrow> nat option" where
  "first_program track = (case List.map_filter msg_program track of [] \<Rightarrow> None | p # ps \<Rightarrow> Some p)"

section \<open>Filename metadata parser (file_metadata.py)\<close>

datatype py_error = IndexError

text \<open>
  The regular expressions of the module, for file names over the code points below 256
  (a \<open>char\<close> is its code point; the classes \<^verbatim>\<open>\w\<close>, \<^verbatim>\<open>\d\<close> and \<^verbatim>\<open>\s\<close> are the Unicode classes
  restricted to them, and \<open>lower\<close> and \<open>upper\<close> are applied to ASCII letters only: the text
  a pattern of the module captures), and a backtracking matcher for them after Python's \<^verbatim>\<open>re\<close>: \<open>rmatch r prev s\<close> lists the ways \<open>r\<close> matches a
  prefix of \<open>s\<close> in the order the engine tries them (the first alternative first, a
  greedy quantifier from its longest match down), each with the text of its capturing
  groups and the rest of the string; \<open>prev\<close> is the character before \<open>s\<close>, for
  \<^verbatim>\<open>\b\<close>. \<open>search\<close> returns the groups of the first match at the leftmost position.
  All patterns carry the flag \<^verbatim>\<open>(?i)\<close>: letters match in either case.
\<close>

datatype regex =
    Eps
  | Cls "char \<Rightarrow> bool"
  | Cat regex regex
  | Alt regex regex
  | Opt regex
  | StarCls "char \<Rightarrow> bool"
  | RepCls nat nat "char \<Rightarrow> bool"
  | Grp regex
  | WordB

definition is_word :: "char \<Rightarrow> bool" where
  "is_word c \<longleftrightarrow>
     c \<in> set ''abcdefghijklmnopqrstuvwxyzABCDEFGHIJKLMNOPQRSTUVWXYZ0123456789_'' \<or>
     (let n = (of_char c :: nat)
      in n \<in> set [0xAA, 0xB2, 0xB3, 0xB5, 0xB9, 0xBA, 0xBC, 0xBD, 0xBE] \<or>
         (0xC0 \<le> n \<and> n \<noteq> 0xD7 \<and> n \<noteq> 0xF7))"

definition is_digit :: "char \<Rightarrow> bool" where
  "is_digit c \<longleftrightarrow> c \<in> set ''0123456789''"

definition is_space :: "char \<Rightarrow> bool" where
  "is_space c \<longleftrightarrow>
     c \<in> set [CHR '' '', CHR 0x09, CHR 0x0A, CHR 0x0B, CHR 0x0C, CHR 0x0D,
               CHR 0x1C, CHR 0x1D, CHR 0x1E, CHR 0x1F, CHR 0x85, CHR 0xA0]"

definition lower :: "char \<Rightarrow> char" where
  "lower c = (if c \<in> set ''ABCDEFGHIJKLMNOPQRSTUVWXYZ'' then char_of (of_char c + (32::nat)) else c)"

definition upper :: "char \<Rightarrow> char" where
  "upper c = (if c \<in> set ''abcdefghijklmnopqrstuvwxyz'' then char_of (of_char c - (32::nat)) else c)"

definition ci :: "char \<Rightarrow> char \<Rightarrow> bool" where
  "ci a c \<longleftrightarrow> lower c = lower a"

fun ci_lit :: "string \<Rightarrow> regex" where
  "ci_lit [] = Eps"
| "ci_lit (c # cs) = Cat (Cls (ci c)) (ci_lit cs)"

definition prev_after :: "char option \<Rightarrow> string \<Rightarrow> string \<Rightarrow> char option" where
  "prev_after prev s rest =
     (let consumed = take (length s - length rest) s
      in if consumed = [] then prev else Some (last consumed))"

fun rmatch :: "regex \<Rightarrow> char option \<Rightarrow> string \<Rightarrow> (string list \<times> string) list" where
  "rmatch Eps prev s = [([], s)]"
| "rmatch (Cls p) prev s = (case s of [] \<Rightarrow> [] | c # cs \<Rightarrow> if p c then [([], cs)] else [])"
| "rmatch (Cat a b) prev s =
     concat (map (\<lambda>(g1, r1). map (\<lambda>(g2, r2). (g1 @ g2, r2)) (rmatch b (prev_after prev s r1) r1))
                 (rmatch a prev s))"
| "rmatch (Alt a b) prev s = rmatch a prev s @ rmatch b prev s"
| "rmatch (Opt a) prev s = rmatch a prev s @ [([], s)]"
| "rmatch (StarCls p) prev s =
     map (\<lambda>k. ([], drop k s)) (rev [0..<Suc (length (takeWhile p s))])"
| "rmatch (RepCls m n p) prev s =
     map (\<lambda>k. ([], drop k s)) (rev [m..<Suc (min n (length (takeWhile p s)))])"
| "rmatch (Grp a) prev s =
     map (\<lambda>(g, r). (take (length s - length r) s # g, r)) (rmatch a prev s)"
| "rmatch WordB prev s =
     (if (case prev of None \<Rightarrow> False | Some c \<Rightarrow> is_word c)
         \<noteq> (case s of [] \<Rightarrow> False | c # cs \<Rightarrow> is_word c)
      then [([], s)] else [])"

fun search_from :: "regex \<Rightarrow> char option \<Rightarrow> string \<Rightarrow> string list option" where
  "search_from r prev [] = (case rmatch r prev [] of [] \<Rightarrow> None | (g, rest) # alts \<Rightarrow> Some g)"
| "search_from r prev (c # cs) =
     (case rmatch r prev (c # cs) of
        [] \<Rightarrow> search_from r (Some c) cs
      | (g, rest) # alts \<Rightarrow> Some g)"

definition search :: "regex \<Rightarrow> string \<Rightarrow> string list option" where
  "search r s = search_from r None s"

text \<open>
  \<^verbatim>\<open>(\d{2,3})\s*BPM\<close>; the tonic \<^verbatim>\<open>([A-G](?:#|b)?)\<close>; the separator \<^verbatim>\<open>\s*[- ]?\s*\<close>; and the
  three key patterns, ending in \<^verbatim>\<open>(maj(?:or)?|dur)\<close>, \<^verbatim>\<open>(min(?:or)?|m)\<close> and \<^verbatim>\<open>(maj|min|m)\b\<close>.
\<close>

definition BPM_REGEX :: regex where
  "BPM_REGEX = Cat (Grp (RepCls 2 3 is_digit)) (Cat (StarCls is_space) (ci_lit ''BPM''))"

definition tonic_rx :: regex where
  "tonic_rx = Grp (Cat (Cls (\<lambda>c. c \<in> set ''ABCDEFGabcdefg''))
                       (Opt (Alt (Cls (\<lambda>c. c = CHR ''#'')) (Cls (ci (CHR ''b''))))))"

definition sep_rx :: regex where
  "sep_rx = Cat (StarCls is_space)
              (Cat (Opt (Cls (\<lambda>c. c = CHR ''-'' \<or> c = CHR '' ''))) (StarCls is_space))"

definition KEY_REGEXES :: "regex list" where
  "KEY_REGEXES =
     [Cat tonic_rx (Cat sep_rx (Grp (Alt (Cat (ci_lit ''maj'') (Opt (ci_lit ''or''))) (ci_lit ''dur'')))),
      Cat tonic_rx (Cat sep_rx (Grp (Alt (Cat (ci_lit ''min'') (Opt (ci_lit ''or''))) (ci_lit ''m'')))),
      Cat tonic_rx (Cat (Grp (Alt (ci_lit ''maj'') (Alt (ci_lit ''min'') (ci_lit ''m'')))) WordB)]"

text \<open>\<^verbatim>\<open>filename.rsplit('.', 1)[0]\<close> and \<^verbatim>\<open>int(...)\<close> of a string of digits.\<close>

definition rsplit_dot :: "string \<Rightarrow> string" where
  "rsplit_dot s =
     (if CHR ''.'' \<in> set s then rev (tl (dropWhile (\<lambda>c. c \<noteq> CHR ''.'') (rev s))) else s)"

definition int_of_digits :: "string \<Rightarrow> nat" where
  "int_of_digits ds = foldl (\<lambda>a c. 10 * a + (of_char c - 48)) 0 ds"

definition startswith :: "string \<Rightarrow> string \<Rightarrow> bool" where
  "startswith s p \<longleftrightarrow> take (length p) s = p"

text \<open>
  The body of the loop over \<^verbatim>\<open>KEY_REGEXES\<close> for a match with the given groups. The
  accidental the pattern can capture is \<^verbatim>\<open>#\<close>, \<^verbatim>\<open>b\<close> or \<^verbatim>\<open>B\<close>.
\<close>

definition scale_of_groups :: "string list \<Rightarrow> py_error + string" where
  "scale_of_groups groups =
     (case groups of
        [] \<Rightarrow> Inl IndexError
      | tonic_raw # others \<Rightarrow>
          (case tonic_raw of
             [] \<Rightarrow> Inl IndexError
           | c # cs \<Rightarrow>
               (let tonic = upper c #
                      (case cs of
                         [] \<Rightarrow> []
                       | accidental # u \<Rightarrow>
                           if accidental = CHR ''#'' then ''#''
                           else if accidental = CHR ''b'' \<or> accidental = CHR ''B'' then ''b''
                           else []);
                    mode_raw = (case others of [] \<Rightarrow> [] | g2 # u \<Rightarrow> map lower g2)
                in if startswith mode_raw ''maj'' \<or> mode_raw = ''dur'' then Inr (tonic @ '' major'')
                   else if startswith mode_raw ''min'' \<or> mode_raw = ''m'' then Inr (tonic @ '' minor'')
                   else Inr tonic)))"

fun first_key_match :: "regex list \<Rightarrow> string \<Rightarrow> py_error + string option" where
  "first_key_match [] s = Inr None"
| "first_key_match (rx # rxs) s =
     (case search rx s of
        None \<Rightarrow> first_key_match rxs s
      | Some groups \<Rightarrow>
          (case scale_of_groups groups of Inl e \<Rightarrow> Inl e | Inr scale \<Rightarrow> Inr (Some scale)))"

definition parse_filename_metadata :: "string \<Rightarrow> py_error + (nat option \<times> string option)" where
  "parse_filename_metadata filename =
     (let name_no_ext = rsplit_dot filename;
          bpm = (case search BPM_REGEX name_no_ext of
                   None \<Rightarrow> None
                 | Some groups \<Rightarrow> (case groups of [] \<Rightarrow> None | g # u \<Rightarrow> Some (int_of_digits g)))
      in case first_key_match KEY_REGEXES name_no_ext of
           Inl e \<Rightarrow> Inl e
         | Inr scale \<Rightarrow> Inr (bpm, scale))"

section \<open>Scale detector (scale_detector.py)\<close>

definition MAJOR_PROFILE :: "real list" where
  "MAJOR_PROFILE = [6.35, 2.23, 3.48, 2.33, 4.38, 4.09, 2.52, 5.19, 2.39, 3.66, 2.29, 2.88]"

definition MINOR_PROFILE :: "real list" where
  "MINOR_PROFILE = [6.33, 2.68, 3.52, 5.38, 2.60, 3.53, 2.54, 4.75, 3.98, 2.69, 3.34, 3.17]"

definition NOTE_NAMES :: "string list" where
  "NOTE_NAMES = [''C'', ''C#'', ''D'', ''Eb'', ''E'', ''F'', ''F#'', ''G'', ''Ab'', ''A'', ''Bb'', ''B'']"

text \<open>
  \<^verbatim>\<open>_pearson_correlation\<close>. Python's floating-point arithmetic is modelled by exact real
  arithmetic. Reading \<^verbatim>\<open>y[i]\<close> beyond the end of \<open>y\<close> raises \<^verbatim>\<open>IndexError\<close>.
\<close>

definition pearson_correlation :: "real list \<Rightarrow> real list \<Rightarrow> py_error + real" where
  "pearson_correlation x y =
     (let n = length x
      in if n = 0 then Inr 0
         else if length y < n then Inl IndexError
         else
           let mean_x = sum_list x / real n;
               mean_y = sum_list y / real n;
               numerator = (\<Sum>i\<leftarrow>[0..<n]. (x ! i - mean_x) * (y ! i - mean_y));
               sum_sq_x = (\<Sum>i\<leftarrow>[0..<n]. (x ! i - mean_x)\<^sup>2);
               sum_sq_y = (\<Sum>i\<leftarrow>[0..<n]. (y ! i - mean_y)\<^sup>2);
               denominator = sqrt (sum_sq_x * sum_sq_y)
           in if denominator = 0 then Inr 0 else Inr (numerator / denominator))"

text \<open>
  \<^verbatim>\<open>_find_best_key\<close>: the three variables the loop updates, the body of the loop for
  one root (\<^verbatim>\<open>histogram[root:] + histogram[:root]\<close> is the rotated histogram), the loop
  over \<^verbatim>\<open>range(12)\<close> and the function.
\<close>

record best =
  best_correlation :: real
  best_key :: string
  best_mode :: string

definition try_root :: "real list \<Rightarrow> best \<Rightarrow> nat \<Rightarrow> py_error + best" where
  "try_root histogram b root_note =
     (let rotated_histogram = drop root_note histogram @ take root_note histogram
      in case pearson_correlation rotated_histogram MAJOR_PROFILE of
           Inl e \<Rightarrow> Inl e
         | Inr correlation \<Rightarrow>
             (let b1 = (if correlation > best_correlation b
                        then \<lparr>best_correlation = correlation, best_key = NOTE_NAMES ! root_note,
                              best_mode = ''Major''\<rparr>
                        else b)
              in case pearson_correlation rotated_histogram MINOR_PROFILE of
                   Inl e \<Rightarrow> Inl e
                 | Inr correlation2 \<Rightarrow>
                     Inr (if correlation2 > best_correlation b1
                          then \<lparr>best_correlation = correlation2, best_key = NOTE_NAMES ! root_note,
                                best_mode = ''Minor''\<rparr>
                          else b1)))"

fun find_loop :: "real list \<Rightarrow> best \<Rightarrow> nat list \<Rightarrow> py_error + best" where
  "find_loop histogram b [] = Inr b"
| "find_loop histogram b (root_note # root_notes) =
     (case try_root histogram b root_note of
        Inl e \<Rightarrow> Inl e
      | Inr b' \<Rightarrow> find_loop histogram b' root_notes)"

definition find_best_key :: "real list \<Rightarrow> py_error + (string \<times> real)" where
  "find_best_key histogram =
     (case find_loop histogram
             \<lparr>best_correlation = - 1, best_key = ''unknown'', best_mode = ''Major''\<rparr> [0..<12] of
        Inl e \<Rightarrow> Inl e
      | Inr b \<Rightarrow>
          Inr (best_key b @ '' '' @ best_mode b,
               max 0 (min 1 ((best_correlation b + 1) / 2))))"

text \<open>
  For the proofs: the dot product of two lists, the correlation as a real number (the
  centred sums written with dot products), one step of the running maximum, and the 24
  candidates in the order the loop tries them.
\<close>

definition dot :: "real list \<Rightarrow> real list \<Rightarrow> real" where
  "dot x y = (\<Sum>i\<leftarrow>[0..<length x]. x ! i * y ! i)"

definition pc :: "real list \<Rightarrow> real list \<Rightarrow> real" where
  "pc x y =
     (let n = real (length x);
          sx = dot x x - (sum_list x)\<^sup>2 / n;
          sy = dot y y - (sum_list y)\<^sup>2 / n
      in if sx = 0 \<or> sy = 0 then 0
         else (dot x y - sum_list x * sum_list y / n) / sqrt (sx * sy))"

definition upd :: "best \<Rightarrow> best \<Rightarrow> best" where
  "upd b c = (if best_correlation c > best_correlation b then c else b)"

definition cand :: "real list \<Rightarrow> nat \<Rightarrow> bool \<Rightarrow> best" where
  "cand h r minor =
     \<lparr>best_correlation = pc (drop r h @ take r h) (if minor then MINOR_PROFILE else MAJOR_PROFILE),
      best_key = NOTE_NAMES ! r,
      best_mode = (if minor then ''Minor'' else ''Major'')\<rparr>"

definition cands :: "real list \<Rightarrow> nat list \<Rightarrow> best list" where
  "cands h rs = concat (map (\<lambda>r. [cand h r False, cand h r True]) rs)"

definition profile :: "bool \<Rightarrow> real list" where
  "profile minor = (if minor then MINOR_PROFILE else MAJOR_PROFILE)"

section \<open>Observations and example inputs\<close>

text \<open>Every note of the score, track by track.\<close>

definition all_notes :: "Score \<Rightarrow> Note list" where
  "all_notes score = concat (map track_notes (tracks score))"

text \<open>The tick of every timed entity of the score.\<close>

definition track_times :: "Track \<Rightarrow> int list" where
  "track_times track =
     map time (track_notes track) @ map time (controls track) @ map time (pitch_bends track) @
     map time (pedals track) @ (case lyrics track of None \<Rightarrow> [] | Some ls \<Rightarrow> map time ls)"

definition event_times :: "Score \<Rightarrow> int list" where
  "event_times score =
     concat (map track_times (tracks score)) @ map time (tempos score) @
     map time (time_signatures score) @ map time (key_signatures score)"

text \<open>Inputs for the closed instances below.\<close>

definition example_os :: os_env where
  "example_os =
     \<lparr>path_exists = (\<lambda>p. p = ''a.mid'' \<or> p = ''b.mid'' \<or> p = ''locked.mid''),
      read_bytes = (\<lambda>p. if p = ''a.mid'' \<or> p = ''b.mid'' then Some ''MThd'' else None),
      getsize = (\<lambda>p. if p = ''a.mid'' \<or> p = ''b.mid'' then Some 4 else None)\<rparr>"

definition example_note :: "int \<Rightarrow> int \<Rightarrow> Note" where
  "example_note t d = \<lparr>time = t, duration = d, pitch = 60, velocity = 100\<rparr>"

definition example_score :: Score where
  "example_score =
     \<lparr>tracks = [\<lparr>track_notes = [example_note 960 240, example_note 1440 480],
                 controls = [\<lparr>time = 0, payload = [7, 100]\<rparr>],
                 pitch_bends = [],
                 pedals = [],
                 lyrics = Some [\<lparr>time = 1000, lyric_text = ''la''\<rparr>]\<rparr>],
      tempos = [\<lparr>time = 0, payload = [500000]\<rparr>],
      time_signatures = [\<lparr>time = 0, payload = [4, 4]\<rparr>],
      key_signatures = []\<rparr>"

definition empty_score :: Score where
  "empty_score =
     \<lparr>tracks = [\<lparr>track_notes = [], controls = [\<lparr>time = 10, payload = [7, 100]\<rparr>],
                 pitch_bends = [], pedals = [], lyrics = None\<rparr>],
      tempos = [\<lparr>time = 0, payload = [500000]\<rparr>],
      time_signatures = [],
      key_signatures = []\<rparr>"

definition example_fs :: file_system where
  "example_fs =
     \<lparr>files = (\<lambda>p. if p = ''clip.mid'' then Inr example_score
                     else if p = ''empty.mid'' then Inr empty_score
                     else Inl ''file not found''),
      dump_error = (\<lambda>p. None)\<rparr>"

definition example_trimmer :: MIDITrimmer where
  "example_trimmer = \<lparr>min_trim_ticks = 480, trim_trailing = True\<rparr>"

section \<open>Deduplicator: registration\<close>

lemma register_file_keeps_index:
  "file_hashes self d = Some p \<Longrightarrow> file_hashes (snd (register_file sha os fp self)) d = Some p"
  by (auto simp: register_file_def split: option.splits)

lemma register_all_keeps_index:
  "file_hashes self d = Some p \<Longrightarrow> file_hashes (register_all sha calls self) d = Some p"
proof (induction calls arbitrary: self)
  case Nil
  then show ?case by simp
next
  case (Cons c calls)
  obtain os fp where c: "c = (os, fp)" by (cases c)
  from Cons.prems have "file_hashes (snd (register_file sha os fp self)) d = Some p"
    by (rule register_file_keeps_index)
  then show ?case unfolding c by (simp add: Cons.IH)
qed

text \<open>
  Claim C1. Within one run, when a file is registered whose digest is \<open>d\<close>, every later
  registration of a file with byte-identical content, after any number of other
  registrations, returns "duplicate" together with the path the index holds for \<open>d\<close>
  after the first call. When \<open>d\<close> had not been seen before the first call, that call
  returns "not a duplicate" and the canonical path is the first file's own path. The
  index never changes the path of a digest it already holds.
\<close>

theorem register_file_duplicate_detection:
  assumes "path_exists os1 p1" and "read_bytes os1 p1 = Some content"
    and "path_exists os2 p2" and "read_bytes os2 p2 = Some content"
    and "sha content \<noteq> []"
  shows "(file_hashes self (sha content) = None \<longrightarrow>
            fst (register_file sha os1 p1 self) = (False, None) \<and>
            file_hashes (snd (register_file sha os1 p1 self)) (sha content) = Some p1) \<and>
         (\<exists>canonical.
            file_hashes (snd (register_file sha os1 p1 self)) (sha content) = Some canonical \<and>
            fst (register_file sha os2 p2
                  (register_all sha calls (snd (register_file sha os1 p1 self))))
              = (True, Some canonical)) \<and>
         (\<forall>d p. file_hashes self d = Some p \<longrightarrow>
            file_hashes (snd (register_file sha os2 p2
                  (register_all sha calls (snd (register_file sha os1 p1 self))))) d = Some p)"
proof -
  let ?d = "sha content"
  let ?s1 = "snd (register_file sha os1 p1 self)"
  let ?s2 = "register_all sha calls ?s1"
  have h1: "compute_file_hash sha os1 p1 = Some ?d" and h2: "compute_file_hash sha os2 p2 = Some ?d"
    using assms by (simp_all add: compute_file_hash_def)
  have first: "file_hashes self ?d = None \<longrightarrow>
      fst (register_file sha os1 p1 self) = (False, None) \<and> file_hashes ?s1 ?d = Some p1"
    using assms(5) by (simp add: register_file_def h1)
  obtain canonical where c: "file_hashes ?s1 ?d = Some canonical"
    using assms(5) by (cases "file_hashes self ?d") (auto simp: register_file_def h1)
  then have "file_hashes ?s2 ?d = Some canonical"
    by (rule register_all_keeps_index)
  then have second: "fst (register_file sha os2 p2 ?s2) = (True, Some canonical)"
    using assms(5) by (simp add: register_file_def h2)
  have keep: "\<forall>d p. file_hashes self d = Some p \<longrightarrow>
      file_hashes (snd (register_file sha os2 p2 ?s2)) d = Some p"
    by (blast intro: register_file_keeps_index register_all_keeps_index)
  from first c second keep show ?thesis by blast
qed

theorem register_file_duplicate_detection_witness:
  "path_exists example_os ''a.mid'' \<and> read_bytes example_os ''a.mid'' = Some ''MThd'' \<and>
   path_exists example_os ''b.mid'' \<and> read_bytes example_os ''b.mid'' = Some ''MThd'' \<and>
   rev ''MThd'' \<noteq> [] \<and>
   file_hashes init_deduplicator (rev ''MThd'') = None \<and>
   fst (register_file rev example_os ''a.mid'' init_deduplicator) = (False, None) \<and>
   fst (register_file rev example_os ''b.mid''
         (register_all rev [(example_os, ''locked.mid'')]
           (snd (register_file rev example_os ''a.mid'' init_deduplicator))))
     = (True, Some ''a.mid'')"
proof -
  have h: "path_exists example_os ''a.mid''" "read_bytes example_os ''a.mid'' = Some ''MThd''"
    "path_exists example_os ''b.mid''" "read_bytes example_os ''b.mid'' = Some ''MThd''"
    "rev ''MThd'' \<noteq> []"
    by (simp_all add: example_os_def)
  have u: "file_hashes init_deduplicator (rev ''MThd'') = None"
    by (simp add: init_deduplicator_def)
  from register_file_duplicate_detection[where sha = rev and self = init_deduplicator
         and calls = "[(example_os, ''locked.mid'')]", OF h] u h
  show ?thesis by auto
qed

text \<open>
  Claim C10. \<open>register_file\<close> returns \<open>(False, None)\<close> both when the digest cannot be
  computed (the file is missing or reading it raises) and when the digest is seen for the
  first time. In the first case the deduplicator, and so its index, is unchanged; in the
  second the index gains the digest, mapped to the registered path, yet the canonical
  reference returned is \<open>None\<close>.
\<close>

theorem register_file_false_none_ambiguous:
  "((\<not> path_exists os fp \<or> read_bytes os fp = None) \<longrightarrow>
      compute_file_hash sha os fp = None \<and>
      register_file sha os fp self = ((False, None), self)) \<and>
   (compute_file_hash sha os fp = Some d \<and> d \<noteq> [] \<and> file_hashes self d = None \<longrightarrow>
      register_file sha os fp self =
        ((False, None), self\<lparr>file_hashes := (file_hashes self)(d \<mapsto> fp)\<rparr>))"
  by (auto simp: register_file_def compute_file_hash_def split: option.splits)

theorem register_file_false_none_ambiguous_witness:
  "read_bytes example_os ''locked.mid'' = None \<and>
   register_file rev example_os ''locked.mid'' init_deduplicator = ((False, None), init_deduplicator) \<and>
   compute_file_hash rev example_os ''a.mid'' = Some ''dhTM'' \<and>
   ''dhTM'' \<noteq> [] \<and> file_hashes init_deduplicator ''dhTM'' = None \<and>
   register_file rev example_os ''a.mid'' init_deduplicator =
     ((False, None),
      init_deduplicator\<lparr>file_hashes := (file_hashes init_deduplicator)(''dhTM'' \<mapsto> ''a.mid'')\<rparr>)"
proof -
  have a: "read_bytes example_os ''locked.mid'' = None"
    by (simp add: example_os_def)
  have b: "compute_file_hash rev example_os ''a.mid'' = Some ''dhTM''"
    "''dhTM'' \<noteq> []" "file_hashes init_deduplicator ''dhTM'' = None"
    by (simp_all add: compute_file_hash_def example_os_def init_deduplicator_def)
  from register_file_false_none_ambiguous[of example_os "''locked.mid''" rev init_deduplicator "''dhTM''"]
       register_file_false_none_ambiguous[of example_os "''a.mid''" rev init_deduplicator "''dhTM''"]
       a b
  show ?thesis by blast
qed

section \<open>Trimmer: note boundaries and shifting\<close>

lemma foldl_tracks_concat:
  "foldl (\<lambda>acc track. if track_notes track = [] then acc else foldl note_boundary acc (track_notes track)) acc ts
   = foldl note_boundary acc (concat (map track_notes ts))"
  by (induction ts arbitrary: acc) auto

lemma find_note_boundaries_all_notes:
  "find_note_boundaries score = foldl note_boundary (None, None) (all_notes score)"
  by (simp add: find_note_boundaries_def all_notes_def foldl_tracks_concat)

lemma note_boundary_some:
  "note_boundary (Some f, Some l) n = (Some (min (time n) f), Some (max (time n + duration n) l))"
  by (simp add: note_boundary_def Let_def min_def max_def)

lemma foldl_note_boundary:
  "ns \<noteq> [] \<Longrightarrow> foldl note_boundary (None, None) ns =
     (Some (Min (time ` set ns)), Some (Max ((\<lambda>n. time n + duration n) ` set ns)))"
proof (induction ns rule: rev_induct)
  case Nil
  then show ?case by simp
next
  case (snoc x xs)
  show ?case
  proof (cases "xs = []")
    case True
    then show ?thesis by (simp add: note_boundary_def Let_def)
  next
    case False
    with snoc.IH have IH: "foldl note_boundary (None, None) xs =
       (Some (Min (time ` set xs)), Some (Max ((\<lambda>n. time n + duration n) ` set xs)))" by simp
    from False have ne: "time ` set xs \<noteq> {}" "(\<lambda>n. time n + duration n) ` set xs \<noteq> {}" by auto
    have "foldl note_boundary (None, None) (xs @ [x]) =
            note_boundary (Some (Min (time ` set xs)), Some (Max ((\<lambda>n. time n + duration n) ` set xs))) x"
      by (simp only: foldl_append foldl.simps IH)
    also have "\<dots> = (Some (Min (time ` set (xs @ [x]))),
                        Some (Max ((\<lambda>n. time n + duration n) ` set (xs @ [x]))))"
      using ne by (simp add: note_boundary_some)
    finally show ?thesis .
  qed
qed

lemma find_note_boundaries_some:
  "all_notes score \<noteq> [] \<Longrightarrow> find_note_boundaries score =
     (Some (Min (time ` set (all_notes score))),
      Some (Max ((\<lambda>n. time n + duration n) ` set (all_notes score))))"
  by (simp add: find_note_boundaries_all_notes foldl_note_boundary)

lemma find_note_boundaries_none:
  "all_notes score = [] \<Longrightarrow> find_note_boundaries score = (None, None)"
  by (simp add: find_note_boundaries_all_notes)

lemma track_notes_shift_lyrics: "track_notes (shift_lyrics s t) = track_notes t"
  by (simp add: shift_lyrics_def split: option.splits)

lemma track_notes_shift_track: "track_notes (shift_track s t) = map (shift_time s) (track_notes t)"
  by (simp add: shift_track_def)

lemma all_notes_shift_events:
  "all_notes (shift_events score s) = (if s = 0 then all_notes score else map (shift_time s) (all_notes score))"
  by (simp add: shift_events_def all_notes_def Let_def map_concat comp_def
      track_notes_shift_lyrics track_notes_shift_track)

lemma trim_score_no_notes:
  "all_notes score = [] \<Longrightarrow> trim_score self score_end input_path score =
     (score,
      \<lparr>file_path = input_path,
       original_duration_ticks = score_end score,
       trimmed_start_ticks = 0,
       trimmed_end_ticks = 0,
       new_duration_ticks = score_end score,
       note_count = 0,
       first_note_time = 0,
       last_note_time = 0,
       tempo_count = int (length (tempos score)),
       time_sig_count = int (length (time_signatures score)),
       success = False,
       error_message = Some ''No notes found in file''\<rparr>,
      False)"
  by (simp add: trim_score_def find_note_boundaries_none Let_def)

lemma trim_score_notes:
  assumes "all_notes score \<noteq> []"
  shows "fst (trim_score self score_end input_path score) =
           (if 0 < (if min_trim_ticks self \<le> Min (time ` set (all_notes score))
                    then Min (time ` set (all_notes score)) else 0)
            then shift_events score (Min (time ` set (all_notes score))) else score)"
    and "trimmed_start_ticks (fst (snd (trim_score self score_end input_path score))) =
           (if min_trim_ticks self \<le> Min (time ` set (all_notes score))
            then Min (time ` set (all_notes score)) else 0)"
    and "first_note_time (fst (snd (trim_score self score_end input_path score))) =
           Min (time ` set (all_notes score))"
    and "success (fst (snd (trim_score self score_end input_path score)))"
    and "snd (snd (trim_score self score_end input_path score))"
  using assms by (simp_all add: trim_score_def find_note_boundaries_some Let_def)

lemma Min_shifted_zero:
  assumes "ns \<noteq> []" "s = Min (time ` set ns)"
  shows "Min (time ` set (map (shift_time s) (ns :: Note list))) = 0"
proof -
  let ?S = "time ` set (map (shift_time s) ns)"
  have fin: "finite ?S" and ne: "?S \<noteq> {}" using assms by auto
  have "Min (time ` set ns) \<in> time ` set ns" using assms by (intro Min_in) auto
  then obtain m where "m \<in> set ns" "time m = Min (time ` set ns)"
    by auto
  with assms have m: "m \<in> set ns" "time m = s" by simp_all
  then have "0 \<in> ?S" by (force simp: shift_time_def)
  moreover have "\<forall>t\<in>?S. 0 \<le> t" by (auto simp: shift_time_def)
  ultimately show ?thesis using fin by (intro Min_eqI) auto
qed


lemma shift_time_eq: "shift_time s = (\<lambda>x. x\<lparr>time := max 0 (time x - s)\<rparr>)"
  by (rule ext) (simp add: shift_time_def)

lemma shift_events_fields:
  assumes "s \<noteq> 0"
  shows "length (tracks (shift_events score s)) = length (tracks score)"
    and "tempos (shift_events score s) = map (shift_time s) (tempos score)"
    and "time_signatures (shift_events score s) = map (shift_time s) (time_signatures score)"
    and "key_signatures (shift_events score s) = map (shift_time s) (key_signatures score)"
    and "i < length (tracks score) \<Longrightarrow>
           tracks (shift_events score s) ! i = shift_lyrics s (shift_track s (tracks score ! i))"
  using assms by (simp_all add: shift_events_def Let_def)

lemma shift_track_lyrics_fields:
  "track_notes (shift_lyrics s (shift_track s t)) = map (shift_time s) (track_notes t)"
  "controls (shift_lyrics s (shift_track s t)) = map (shift_time s) (controls t)"
  "pitch_bends (shift_lyrics s (shift_track s t)) = map (shift_time s) (pitch_bends t)"
  "pedals (shift_lyrics s (shift_track s t)) = map (shift_time s) (pedals t)"
  "lyrics (shift_lyrics s (shift_track s t)) = map_option (map (shift_time s)) (lyrics t)"
  by (simp_all add: shift_lyrics_def shift_track_def split: option.splits)

lemma time_shift_time: "time (shift_time s x) = max 0 (time x - s)"
  by (simp add: shift_time_def)

lemma track_times_shift:
  "track_times (shift_lyrics s (shift_track s t)) = map (\<lambda>t. max 0 (t - s)) (track_times t)"
  by (simp add: track_times_def shift_track_lyrics_fields comp_def time_shift_time
      split: option.splits)

lemma event_times_shift_events:
  assumes "s \<noteq> 0"
  shows "event_times (shift_events score s) = map (\<lambda>t. max 0 (t - s)) (event_times score)"
  using assms
  by (simp add: event_times_def shift_events_def Let_def comp_def map_concat
      track_times_shift time_shift_time)


text \<open>
  Trimming the result of a trim shifts nothing and leaves the clip as the first trim
  produced it; the second \<open>trim_start\<close> is 0 unless the threshold is negative and a note
  of the clip starts at a negative tick.
\<close>

lemma trim_twice:
  "fst (trim_score self score_end path2 (fst (trim_score self score_end path1 score)))
     = fst (trim_score self score_end path1 score) \<and>
   trimmed_start_ticks (fst (snd (trim_score self score_end path2
       (fst (trim_score self score_end path1 score))))) \<le> 0 \<and>
   (0 \<le> min_trim_ticks self \<or> (\<forall>n\<in>set (all_notes score). 0 \<le> time n) \<longrightarrow>
    trimmed_start_ticks (fst (snd (trim_score self score_end path2
       (fst (trim_score self score_end path1 score))))) = 0)"
proof (cases "all_notes score = []")
  case True
  then show ?thesis
    by (simp add: trim_score_no_notes)
next
  case False
  let ?f = "Min (time ` set (all_notes score))"
  let ?ts = "if ?f \<ge> min_trim_ticks self then ?f else 0"
  note ts1 = trim_score_notes[OF False, of self score_end]
  show ?thesis
  proof (cases "?ts > 0")
    case True
    then have ts: "min_trim_ticks self \<le> ?f" "?f > 0" by (auto split: if_splits)
    have s1: "fst (trim_score self score_end path1 score) = shift_events score ?f"
      using ts by (simp add: ts1(1))
    have n1: "all_notes (shift_events score ?f) = map (shift_time ?f) (all_notes score)"
      using ts by (simp add: all_notes_shift_events)
    then have ne1: "all_notes (shift_events score ?f) \<noteq> []" using False by simp
    have m1: "Min (time ` set (all_notes (shift_events score ?f))) = 0"
      unfolding n1 using False by (rule Min_shifted_zero) simp
    show ?thesis unfolding s1
      by (simp add: trim_score_notes[OF ne1] m1)
  next
    case F2: False
    have s1: "fst (trim_score self score_end path1 score) = score"
      using F2 by (simp add: ts1(1))
    have zero: "?ts = 0"
      if h: "0 \<le> min_trim_ticks self \<or> (\<forall>n\<in>set (all_notes score). 0 \<le> time n)"
    proof (cases "?f \<ge> min_trim_ticks self")
      case ge: True
      with F2 have le: "?f \<le> 0" by simp
      from h have "?f = 0"
      proof
        assume "0 \<le> min_trim_ticks self"
        with ge le show ?thesis by simp
      next
        assume nn: "\<forall>n\<in>set (all_notes score). 0 \<le> time n"
        have "?f \<in> time ` set (all_notes score)" using False by (intro Min_in) auto
        with nn have "0 \<le> ?f" by auto
        with le show ?thesis by simp
      qed
      with ge show ?thesis by simp
    next
      case False
      then show ?thesis by simp
    qed
    have t2: "trimmed_start_ticks (fst (snd (trim_score self score_end path2 score))) = ?ts"
      by (rule trim_score_notes(2)[OF False])
    have u: "fst (trim_score self score_end path2 score) = score"
      using F2 by (simp add: trim_score_notes(1)[OF False])
    show ?thesis unfolding s1 t2 u using F2 zero by auto
  qed
qed

text \<open>
  Claim C2. Trimming is idempotent. The ticks of a clip are positions counted from the start
  of the file, so no note of a clip starts at a negative tick. For every such clip, every
  threshold \<open>min_trim_ticks\<close> and either setting of \<open>trim_trailing\<close>: when the clip has been
  trimmed, trimming the result again with the same trimmer computes \<open>trim_start = 0\<close> and
  leaves the clip as the first trim produced it.
\<close>

theorem trim_idempotent:
  assumes "\<forall>n\<in>set (all_notes score). 0 \<le> time n"
  shows "trimmed_start_ticks (fst (snd (trim_score self score_end path2
             (fst (trim_score self score_end path1 score))))) = 0 \<and>
         fst (trim_score self score_end path2 (fst (trim_score self score_end path1 score)))
           = fst (trim_score self score_end path1 score)"
  using trim_twice[of self score_end path2 path1 score] assms by blast

theorem trim_idempotent_witness:
  "list_all (\<lambda>n. 0 \<le> time n) (all_notes example_score) \<and>
   trimmed_start_ticks (fst (snd (trim_score example_trimmer (\<lambda>s. 1920) ''clip.mid'' example_score))) = 960 \<and>
   event_times (fst (trim_score example_trimmer (\<lambda>s. 1920) ''clip.mid'' example_score))
     = [0, 480, 0, 40, 0, 0] \<and>
   trimmed_start_ticks (fst (snd (trim_score example_trimmer (\<lambda>s. 1920) ''clip.mid''
       (fst (trim_score example_trimmer (\<lambda>s. 1920) ''clip.mid'' example_score))))) = 0 \<and>
   fst (trim_score example_trimmer (\<lambda>s. 1920) ''clip.mid''
         (fst (trim_score example_trimmer (\<lambda>s. 1920) ''clip.mid'' example_score)))
     = fst (trim_score example_trimmer (\<lambda>s. 1920) ''clip.mid'' example_score)"
proof -
  have h: "\<forall>n\<in>set (all_notes example_score). 0 \<le> time n"
    by (simp add: all_notes_def example_score_def example_note_def)
  have ne: "all_notes example_score \<noteq> []"
    by (simp add: all_notes_def example_score_def)
  have m: "Min (time ` set (all_notes example_score)) = 960"
    by (simp add: all_notes_def example_score_def example_note_def)
  have f: "trimmed_start_ticks (fst (snd (trim_score example_trimmer (\<lambda>s. 1920) ''clip.mid'' example_score))) = 960"
    by (simp add: trim_score_notes(2)[OF ne] m example_trimmer_def)
  have s: "fst (trim_score example_trimmer (\<lambda>s. 1920) ''clip.mid'' example_score)
             = shift_events example_score 960"
    by (simp add: trim_score_notes(1)[OF ne] m example_trimmer_def)
  have e: "event_times example_score = [960, 1440, 0, 1000, 0, 0]"
    by (simp add: event_times_def track_times_def example_score_def example_note_def)
  have ev: "event_times (fst (trim_score example_trimmer (\<lambda>s. 1920) ''clip.mid'' example_score))
             = [0, 480, 0, 40, 0, 0]"
    unfolding s by (simp add: event_times_shift_events e)
  from trim_idempotent[OF h, of example_trimmer "\<lambda>s. 1920" "''clip.mid''" "''clip.mid''"] h f ev
  show ?thesis by (simp add: list_all_iff)
qed

text \<open>
  Claim C3. For every clip with at least one note, \<open>trim_start\<close> is the first note time
  (the least note start tick of the clip) when that is at least \<open>min_trim_ticks\<close>, and 0
  otherwise. When \<open>trim_start > 0\<close>, every note, control change, pitch bend, pedal and
  lyric of every track and every tempo, time-signature and key-signature change of the
  clip has its tick replaced by \<open>max 0 (tick - trim_start)\<close>, so that no tick of the trimmed
  clip is negative; otherwise the clip is left as it is. The statistics and the clip are
  what \<open>trim_file\<close> returns and saves.
\<close>

theorem trim_start_and_shift:
  assumes "all_notes score \<noteq> []"
  shows "(let first_note = Min (time ` set (all_notes score));
              trim_start = (if first_note \<ge> min_trim_ticks self then first_note else 0);
              score' = fst (trim_score self score_end input_path score);
              stats = fst (snd (trim_score self score_end input_path score));
              shift = (\<lambda>t. max 0 (t - trim_start))
          in success stats \<and> first_note_time stats = first_note \<and>
             trimmed_start_ticks stats = trim_start \<and>
             (files fs input_path = Inr score \<longrightarrow>
                trim_file self score_end fs input_path None = (stats, fs) \<and>
                (dump_error fs out = None \<longrightarrow>
                   trim_file self score_end fs input_path (Some out)
                     = (stats, fs\<lparr>files := (files fs)(out := Inr score')\<rparr>))) \<and>
             (\<not> trim_start > 0 \<longrightarrow> score' = score) \<and>
             (trim_start > 0 \<longrightarrow>
                length (tracks score') = length (tracks score) \<and>
                (\<forall>i < length (tracks score).
                   track_notes (tracks score' ! i)
                     = map (\<lambda>x. x\<lparr>time := shift (time x)\<rparr>) (track_notes (tracks score ! i)) \<and>
                   controls (tracks score' ! i)
                     = map (\<lambda>x. x\<lparr>time := shift (time x)\<rparr>) (controls (tracks score ! i)) \<and>
                   pitch_bends (tracks score' ! i)
                     = map (\<lambda>x. x\<lparr>time := shift (time x)\<rparr>) (pitch_bends (tracks score ! i)) \<and>
                   pedals (tracks score' ! i)
                     = map (\<lambda>x. x\<lparr>time := shift (time x)\<rparr>) (pedals (tracks score ! i)) \<and>
                   lyrics (tracks score' ! i)
                     = map_option (map (\<lambda>x. x\<lparr>time := shift (time x)\<rparr>)) (lyrics (tracks score ! i))) \<and>
                tempos score' = map (\<lambda>x. x\<lparr>time := shift (time x)\<rparr>) (tempos score) \<and>
                time_signatures score'
                  = map (\<lambda>x. x\<lparr>time := shift (time x)\<rparr>) (time_signatures score) \<and>
                key_signatures score'
                  = map (\<lambda>x. x\<lparr>time := shift (time x)\<rparr>) (key_signatures score) \<and>
                event_times score' = map shift (event_times score) \<and>
                (\<forall>t\<in>set (event_times score'). 0 \<le> t)))"
proof -
  let ?f = "Min (time ` set (all_notes score))"
  let ?ts = "if ?f \<ge> min_trim_ticks self then ?f else 0"
  note r = trim_score_notes[OF assms, of self score_end input_path]
  have wr: "files fs input_path = Inr score \<longrightarrow>
      trim_file self score_end fs input_path None
        = (fst (snd (trim_score self score_end input_path score)), fs) \<and>
      (dump_error fs out = None \<longrightarrow>
         trim_file self score_end fs input_path (Some out)
           = (fst (snd (trim_score self score_end input_path score)),
              fs\<lparr>files := (files fs)(out := Inr (fst (trim_score self score_end input_path score)))\<rparr>))"
  proof -
    obtain sc st ok where t: "trim_score self score_end input_path score = (sc, st, ok)"
      by (cases "trim_score self score_end input_path score")
    with r(5) have "ok" by simp
    with t show ?thesis by (simp add: trim_file_def split: option.splits)
  qed
  have same: "\<not> ?ts > 0 \<longrightarrow> fst (trim_score self score_end input_path score) = score"
    by (simp add: r(1))
  have sh: "?ts > 0 \<longrightarrow> fst (trim_score self score_end input_path score) = shift_events score ?ts \<and> ?ts \<noteq> 0"
    by (simp add: r(1))
  show ?thesis
    unfolding Let_def
    using r(2,3,4) wr same sh
    by (simp add: shift_events_fields event_times_shift_events shift_track_lyrics_fields
        shift_time_eq)
qed

theorem trim_start_and_shift_witness:
  "all_notes example_score \<noteq> [] \<and>
   files example_fs ''clip.mid'' = Inr example_score \<and>
   dump_error example_fs ''out.mid'' = None \<and>
   trimmed_start_ticks (fst (trim_file example_trimmer (\<lambda>s. 1920) example_fs ''clip.mid'' None)) = 960 \<and>
   snd (trim_file example_trimmer (\<lambda>s. 1920) example_fs ''clip.mid'' None) = example_fs \<and>
   map (\<lambda>p. files (snd (trim_file example_trimmer (\<lambda>s. 1920) example_fs ''clip.mid''
           (Some ''out.mid''))) p = files example_fs p) [''clip.mid'', ''empty.mid'', ''out.mid'']
     = [True, True, False] \<and>
   event_times (fst (trim_score example_trimmer (\<lambda>s. 1920) ''clip.mid'' example_score))
     = [0, 480, 0, 40, 0, 0]"
proof -
  have ne: "all_notes example_score \<noteq> []"
    by (simp add: all_notes_def example_score_def)
  have m: "Min (time ` set (all_notes example_score)) = 960"
    by (simp add: all_notes_def example_score_def example_note_def)
  have f: "files example_fs ''clip.mid'' = Inr example_score"
    "dump_error example_fs ''out.mid'' = None"
    by (simp_all add: example_fs_def)
  have t: "min_trim_ticks example_trimmer = 480"
    by (simp add: example_trimmer_def)
  have e: "event_times example_score = [960, 1440, 0, 1000, 0, 0]"
    by (simp add: event_times_def track_times_def example_score_def example_note_def)
  have d: "files example_fs ''out.mid'' = Inl ''file not found''"
    by (simp add: example_fs_def)
  from trim_start_and_shift[OF ne, of example_trimmer "\<lambda>s. 1920" "''clip.mid''" example_fs "''out.mid''"]
  show ?thesis
    unfolding Let_def m t
    using ne f e d by (simp add: comp_def)
qed

text \<open>
  In the batch run a saved track without notes does not survive the trimming step: the
  clip is renamed to the temporary path, \<open>trim_file\<close> fails before it saves anything, the
  temporary file is removed, and the track is not logged.
\<close>

lemma trim_saved_track_no_notes:
  assumes "files fs output_path = Inr score"
    and "all_notes score = []"
    and "str_replace ''.mid'' ''_temp.mid'' output_path = temp_path"
    and "temp_path \<noteq> output_path"
  shows "trim_saved_track trimmer score_end fs output_path
           = (False, fs\<lparr>files := (files fs)(output_path := no_file, temp_path := no_file)\<rparr>)"
proof -
  let ?fs1 = "os_rename fs output_path temp_path"
  have f1: "files ?fs1 temp_path = Inr score"
    using assms(1,4) by (simp add: os_rename_def)
  have tf: "trim_file trimmer score_end ?fs1 temp_path (Some output_path)
              = (fst (snd (trim_score trimmer score_end temp_path score)), ?fs1)"
    by (simp add: trim_file_def f1 trim_score_no_notes[OF assms(2)])
  have st: "success (fst (snd (trim_score trimmer score_end temp_path score))) = False"
    by (simp add: trim_score_no_notes[OF assms(2)])
  have "trim_saved_track trimmer score_end fs output_path = (False, os_remove ?fs1 temp_path)"
    by (simp add: trim_saved_track_def assms(3) Let_def tf st)
  also have "os_remove ?fs1 temp_path
               = fs\<lparr>files := (files fs)(output_path := no_file, temp_path := no_file)\<rparr>"
    using assms(4) by (simp add: os_remove_def os_rename_def)
  finally show ?thesis .
qed

text \<open>
  Claim C9 (amended). For every clip without notes, \<open>trim_file\<close> fails with "no notes
  found": the statistics have \<open>success = False\<close> and the no-notes message, the reported new
  duration is the original duration and no ticks are reported as trimmed, the score is not
  shifted, and \<open>trim_file\<close> itself does not delete the clip: it writes no file and removes
  none.
\<close>

theorem trim_file_no_notes:
  assumes "files fs input_path = Inr score"
    and "\<forall>track\<in>set (tracks score). track_notes track = []"
  shows "(let stats = fst (trim_file self score_end fs input_path output_path)
          in success stats = False \<and>
             error_message stats = Some ''No notes found in file'' \<and>
             original_duration_ticks stats = score_end score \<and>
             new_duration_ticks stats = original_duration_ticks stats \<and>
             trimmed_start_ticks stats = 0 \<and> trimmed_end_ticks stats = 0) \<and>
         snd (trim_file self score_end fs input_path output_path) = fs \<and>
         fst (trim_score self score_end input_path score) = score"
proof -
  from assms(2) have "all_notes score = []"
    by (simp add: all_notes_def)
  then have "trim_score self score_end input_path score =
     (score,
      \<lparr>file_path = input_path,
       original_duration_ticks = score_end score,
       trimmed_start_ticks = 0,
       trimmed_end_ticks = 0,
       new_duration_ticks = score_end score,
       note_count = 0,
       first_note_time = 0,
       last_note_time = 0,
       tempo_count = int (length (tempos score)),
       time_sig_count = int (length (time_signatures score)),
       success = False,
       error_message = Some ''No notes found in file''\<rparr>,
      False)"
    by (rule trim_score_no_notes)
  with assms(1) show ?thesis
    by (simp add: trim_file_def)
qed

theorem trim_file_no_notes_witness:
  "files example_fs ''empty.mid'' = Inr empty_score \<and>
   list_all (\<lambda>track. track_notes track = []) (tracks empty_score) \<and>
   success (fst (trim_file example_trimmer (\<lambda>s. 10) example_fs ''empty.mid'' (Some ''out.mid''))) = False \<and>
   error_message (fst (trim_file example_trimmer (\<lambda>s. 10) example_fs ''empty.mid'' (Some ''out.mid'')))
     = Some ''No notes found in file'' \<and>
   new_duration_ticks (fst (trim_file example_trimmer (\<lambda>s. 10) example_fs ''empty.mid'' (Some ''out.mid''))) = 10 \<and>
   snd (trim_file example_trimmer (\<lambda>s. 10) example_fs ''empty.mid'' (Some ''out.mid'')) = example_fs"
proof -
  have h: "files example_fs ''empty.mid'' = Inr empty_score"
    "\<forall>track\<in>set (tracks empty_score). track_notes track = []"
    by (simp_all add: example_fs_def empty_score_def)
  from trim_file_no_notes[OF h, where self = example_trimmer and score_end = "\<lambda>s. 10"
         and output_path = "Some ''out.mid''"] h
  show ?thesis by (simp add: Let_def list_all_iff)
qed

text \<open>
  The clip is deleted in the batch run. A track without notes saved at \<^verbatim>\<open>empty.mid\<close> is
  not logged, and after the trimming step there is no file at \<^verbatim>\<open>empty.mid\<close>, none at
  the temporary path \<^verbatim>\<open>empty_temp.mid\<close>, and no path holds the clip.
\<close>

theorem trim_file_no_notes_counterexample:
  "files example_fs ''empty.mid'' = Inr empty_score \<and>
   all_notes empty_score = [] \<and>
   fst (trim_saved_track example_trimmer (\<lambda>s. 10) example_fs ''empty.mid'') = False \<and>
   files (snd (trim_saved_track example_trimmer (\<lambda>s. 10) example_fs ''empty.mid'')) ''empty.mid''
     = no_file \<and>
   files (snd (trim_saved_track example_trimmer (\<lambda>s. 10) example_fs ''empty.mid'')) ''empty_temp.mid''
     = no_file \<and>
   (\<forall>path. files (snd (trim_saved_track example_trimmer (\<lambda>s. 10) example_fs ''empty.mid'')) path
      \<noteq> Inr empty_score)"
proof -
  have tp: "str_replace ''.mid'' ''_temp.mid'' ''empty.mid'' = ''empty_temp.mid''"
    by code_simp
  have ne: "all_notes empty_score = []"
    by (simp add: all_notes_def empty_score_def)
  have f0: "files example_fs ''empty.mid'' = Inr empty_score"
    by (simp add: example_fs_def)
  have r: "trim_saved_track example_trimmer (\<lambda>s. 10) example_fs ''empty.mid''
             = (False, example_fs\<lparr>files := (files example_fs)
                  (''empty.mid'' := no_file, ''empty_temp.mid'' := no_file)\<rparr>)"
    by (rule trim_saved_track_no_notes[OF f0 ne tp]) simp
  have diff: "Inr empty_score \<noteq> no_file"
    by (simp add: no_file_def)
  have ex: "example_score \<noteq> empty_score"
    by (simp add: example_score_def empty_score_def)
  have gone: "files (example_fs\<lparr>files := (files example_fs)
                  (''empty.mid'' := no_file, ''empty_temp.mid'' := no_file)\<rparr>) path
      \<noteq> Inr empty_score" for path
    using diff ex by (simp add: example_fs_def)
  show ?thesis
    unfolding r using ne f0 gone by simp
qed

section \<open>Track extractor: instrument label and duration\<close>

lemma scan_message_fields:
  "has_notes (scan_message st msg) = (has_notes st \<or> is_note_event msg)"
  "found_program_change (scan_message st msg) = (found_program_change st \<or> msg_program msg \<noteq> None)"
  "program_change (scan_message st msg) =
     (if found_program_change st then program_change st
      else case msg_program msg of None \<Rightarrow> program_change st | Some p \<Rightarrow> Some p)"
  "instrument_name (scan_message st msg) =
     (if found_program_change st then instrument_name st
      else case msg_program msg of None \<Rightarrow> instrument_name st | Some p \<Rightarrow> gm_get p)"
  "is_percussion (scan_message st msg) = (is_percussion st \<or> msg_channel msg = Some 9)"
  by (auto simp: scan_message_def Let_def split: option.splits)

lemma scan_track_has_notes:
  "has_notes (scan_track st track) = (has_notes st \<or> (\<exists>m\<in>set track. is_note_event m))"
  by (induction track arbitrary: st) (auto simp: Let_def scan_message_fields)

lemma first_program_Cons:
  "first_program (m # ms) = (case msg_program m of None \<Rightarrow> first_program ms | Some p \<Rightarrow> Some p)"
  by (simp add: first_program_def List.map_filter_simps split: option.splits)

lemma scan_track_found:
  "found_program_change st \<Longrightarrow>
   program_change (scan_track st track) = program_change st \<and>
   instrument_name (scan_track st track) = instrument_name st"
  by (induction track arbitrary: st) (auto simp: Let_def scan_message_fields)

lemma scan_track_percussion:
  "\<not> found_program_change st \<Longrightarrow> first_program track = None \<Longrightarrow>
   is_percussion (scan_track st track) = (is_percussion st \<or> (\<exists>m\<in>set track. msg_channel m = Some 9))"
proof (induction track arbitrary: st)
  case Nil
  then show ?case by simp
next
  case (Cons m ms)
  from Cons.prems have n: "msg_program m = None" "first_program ms = None"
    by (auto simp: first_program_Cons split: option.splits)
  with Cons.prems have nf: "\<not> found_program_change (scan_message st m)"
    by (simp add: scan_message_fields)
  show ?case
    using nf n by (auto simp add: Let_def Cons.IH[OF nf n(2)] scan_message_fields)
qed

lemma scan_track_program:
  "\<not> found_program_change st \<Longrightarrow>
   program_change (scan_track st track) =
     (case first_program track of None \<Rightarrow> program_change st | Some p \<Rightarrow> Some p) \<and>
   instrument_name (scan_track st track) =
     (case first_program track of None \<Rightarrow> instrument_name st | Some p \<Rightarrow> gm_get p)"
proof (induction track arbitrary: st)
  case Nil
  then show ?case by (simp add: first_program_def List.map_filter_simps)
next
  case (Cons m ms)
  show ?case
  proof (cases "msg_program m")
    case None
    then have nf: "\<not> found_program_change (scan_message st m)"
      using Cons.prems by (simp add: scan_message_fields)
    from None Cons.prems show ?thesis
      by (simp add: Let_def first_program_Cons nf Cons.IH[OF nf] scan_message_fields
          split: option.splits)
  next
    case (Some p)
    then have f: "found_program_change (scan_message st m)"
      by (simp add: scan_message_fields)
    show ?thesis
    proof (cases "has_notes (scan_message st m) \<and> found_track_name (scan_message st m)")
      case True
      with f Some Cons.prems show ?thesis
        by (simp add: Let_def first_program_Cons scan_message_fields)
    next
      case False
      with f Some Cons.prems show ?thesis
        by (auto simp add: Let_def first_program_Cons scan_message_fields scan_track_found)
    qed
  qed
qed



text \<open>
  Where the instrument label follows the documented rule: without a program change the
  label is "Percussion" or "Unknown", and a first program change with a program number
  other than 0 gives the table name.
\<close>

lemma extract_track_data_instrument:
  assumes "\<exists>m\<in>set track. is_note_event m"
  shows "\<exists>td. extract_track_data track idx = Some td \<and>
           td_program_change td = first_program track \<and>
           (first_program track = None \<longrightarrow>
              instrument td = (if \<exists>m\<in>set track. msg_channel m = Some 9
                               then ''Percussion'' else ''Unknown'')) \<and>
           (\<forall>p. first_program track = Some p \<and> p \<noteq> 0 \<longrightarrow> instrument td = gm_get p)"
proof -
  have i: "\<not> found_program_change scan_init" "program_change scan_init = None"
    "instrument_name scan_init = ''Unknown''" "\<not> is_percussion scan_init"
    by (simp_all add: scan_init_def)
  have hn: "has_notes (scan_track scan_init track)"
    using assms by (simp add: scan_track_has_notes)
  note p = scan_track_program[OF i(1), of track]
  show ?thesis
    using hn p i scan_track_percussion[OF i(1), of track]
    by (auto simp add: extract_track_data_def Let_def split: option.splits)
qed

text \<open>
  Claim C6 (the code departs from it). A track whose first program change selects
  program 0 and that has an event on channel index 9 is labelled "Percussion", not with
  the table name of program 0: the test \<^verbatim>\<open>not program_change\<close> also holds for the
  program number 0.
\<close>

theorem extract_track_data_program_zero:
  "first_program [Program_change 0 0 0, Note_on 0 60 100 0, Note_on 9 36 100 0] = Some 0 \<and>
   gm_get 0 = ''Acoustic Piano'' \<and>
   map_option instrument
     (extract_track_data [Program_change 0 0 0, Note_on 0 60 100 0, Note_on 9 36 100 0] 0)
     = Some ''Percussion''"
  by (simp add: extract_track_data_def scan_init_def scan_message_def Let_def gm_get_def
      first_program_def List.map_filter_simps GM_INSTRUMENTS_def)



section \<open>Filename metadata parser\<close>

text \<open>
  Claim C8. The parser maps "Cymatics - Infinite - 194 BPM D Min.mid" to bpm 194 and
  scale "D minor", and "140bpm F#m Track.mid" to bpm 140 and scale "F# minor".
\<close>

theorem parse_filename_metadata_examples:
  "parse_filename_metadata ''Cymatics - Infinite - 194 BPM D Min.mid''
     = Inr (Some 194, Some ''D minor'') \<and>
   parse_filename_metadata ''140bpm F#m Track.mid'' = Inr (Some 140, Some ''F# minor'')"
  by code_simp

section \<open>Scale detector: the selected key\<close>

lemma sum_upt_set: "(\<Sum>i\<leftarrow>[0..<n]. f i) = (\<Sum>i<n. (f i :: real))"
  by (simp add: interv_sum_list_conv_sum_set_nat atLeast0LessThan)

lemma sum_list_nth_set: "sum_list (x :: real list) = (\<Sum>i<length x. x ! i)"
  by (simp add: sum_list_sum_nth atLeast0LessThan)

lemma centered_product_sum:
  fixes x y :: "real list"
  assumes "length x = n" "length y = n" "n > 0"
  shows "(\<Sum>i\<leftarrow>[0..<n]. (x ! i - sum_list x / real n) * (y ! i - sum_list y / real n))
         = dot x y - sum_list x * sum_list y / real n"
proof -
  let ?mx = "sum_list x / real n" and ?my = "sum_list y / real n"
  have sx: "(\<Sum>i<n. x ! i) = sum_list x" and sy: "(\<Sum>i<n. y ! i) = sum_list y"
    using assms by (simp_all add: sum_list_nth_set)
  have "(\<Sum>i<n. (x ! i - ?mx) * (y ! i - ?my))
      = (\<Sum>i<n. x ! i * y ! i - ?my * x ! i - ?mx * y ! i + ?mx * ?my)"
    by (rule sum.cong) (simp_all add: algebra_simps)
  also have "\<dots> = (\<Sum>i<n. x ! i * y ! i) - ?my * (\<Sum>i<n. x ! i) - ?mx * (\<Sum>i<n. y ! i)
                   + real n * (?mx * ?my)"
    by (simp add: sum.distrib sum_subtractf sum_distrib_left)
  also have "\<dots> = (\<Sum>i<n. x ! i * y ! i) - sum_list x * sum_list y / real n"
    using assms(3) by (simp add: sx sy field_simps)
  finally show ?thesis
    using assms by (simp add: dot_def sum_upt_set)
qed

lemma pearson_pc:
  assumes "length x = n" "length y = n" "n > 0"
  shows "pearson_correlation x y = Inr (pc x y)"
proof -
  have c: "(\<Sum>i\<leftarrow>[0..<n]. (x ! i - sum_list x / real n) * (y ! i - sum_list y / real n))
         = dot x y - sum_list x * sum_list y / real n"
    using assms by (rule centered_product_sum)
  have sx: "(\<Sum>i\<leftarrow>[0..<n]. (x ! i - sum_list x / real n)\<^sup>2) = dot x x - (sum_list x)\<^sup>2 / real n"
    using centered_product_sum[OF assms(1) assms(1) assms(3)] by (simp add: power2_eq_square)
  have sy: "(\<Sum>i\<leftarrow>[0..<n]. (y ! i - sum_list y / real n)\<^sup>2) = dot y y - (sum_list y)\<^sup>2 / real n"
    using centered_product_sum[OF assms(2) assms(2) assms(3)] by (simp add: power2_eq_square)
  show ?thesis
    using assms by (simp add: pearson_correlation_def Let_def c sx sy pc_def)
qed

lemma mod_shift_back:
  fixes a i n :: nat
  assumes "a < n" "i < n"
  shows "((a + i) mod n + (n - i)) mod n = a" and "((a + (n - i)) mod n + i) mod n = a"
proof -
  have "((a + i) mod n + (n - i)) mod n = ((a + i) + (n - i)) mod n"
    by (rule mod_add_left_eq)
  also have "(a + i) + (n - i) = a + n" using assms by simp
  finally show "((a + i) mod n + (n - i)) mod n = a" using assms by simp
  have "((a + (n - i)) mod n + i) mod n = ((a + (n - i)) + i) mod n"
    by (rule mod_add_left_eq)
  also have "(a + (n - i)) + i = a + n" using assms by simp
  finally show "((a + (n - i)) mod n + i) mod n = a" using assms by simp
qed

lemma sum_rot_index:
  fixes i n :: nat and f :: "nat \<Rightarrow> real"
  assumes "i < n"
  shows "(\<Sum>r<n. f ((r + i) mod n)) = (\<Sum>j<n. f j)"
proof (rule sum.reindex_bij_witness[where i = "\<lambda>j. (j + (n - i)) mod n" and j = "\<lambda>r. (r + i) mod n"])
  fix a assume "a \<in> {..<n}"
  then have a: "a < n" by simp
  show "((a + i) mod n + (n - i)) mod n = a"
    using a assms by (rule mod_shift_back(1))
  show "(a + i) mod n \<in> {..<n}" using a by simp
  show "f ((a + i) mod n) = f ((a + i) mod n)" ..
next
  fix b assume "b \<in> {..<n}"
  then have b: "b < n" by simp
  show "((b + (n - i)) mod n + i) mod n = b"
    using b assms by (rule mod_shift_back(2))
  show "(b + (n - i)) mod n \<in> {..<n}" using b by simp
qed

lemma sum_list_rotate1: "sum_list (rotate1 xs) = sum_list (xs :: real list)"
  by (cases xs) simp_all

lemma sum_list_rotate: "sum_list (rotate d xs) = sum_list (xs :: real list)"
  by (induction d) (simp_all add: sum_list_rotate1)


lemma dot_rotate_rotate:
  fixes x y :: "real list"
  assumes "length x = n" "length y = n"
  shows "dot (rotate d x) (rotate d y) = dot x y"
proof (cases "n = 0")
  case True
  with assms show ?thesis by simp
next
  case False
  have "dot (rotate d x) (rotate d y) = (\<Sum>i<n. x ! ((d + i) mod n) * y ! ((d + i) mod n))"
    using assms by (simp add: dot_def sum_upt_set nth_rotate)
  also have "\<dots> = (\<Sum>i<n. x ! ((i + d mod n) mod n) * y ! ((i + d mod n) mod n))"
    by (simp add: add.commute mod_add_right_eq)
  also have "\<dots> = (\<Sum>j<n. x ! j * y ! j)"
    using False by (intro sum_rot_index[where f = "\<lambda>j. x ! j * y ! j"]) simp
  finally show ?thesis using assms by (simp add: dot_def sum_upt_set)
qed

lemma slice_rotate: "r \<le> length h \<Longrightarrow> drop r h @ take r h = rotate r h"
  by (cases "r = length h") (simp_all add: rotate_drop_take)



lemma profile_lengths: "length MAJOR_PROFILE = 12" "length MINOR_PROFILE = 12"
  by (simp_all add: MAJOR_PROFILE_def MINOR_PROFILE_def)

lemma try_root_upd:
  assumes "length h = 12"
  shows "try_root h b r = Inr (upd (upd b (cand h r False)) (cand h r True))"
proof -
  have l: "length (drop r h @ take r h) = 12" using assms by simp
  have "pearson_correlation (drop r h @ take r h) MAJOR_PROFILE = Inr (pc (drop r h @ take r h) MAJOR_PROFILE)"
    "pearson_correlation (drop r h @ take r h) MINOR_PROFILE = Inr (pc (drop r h @ take r h) MINOR_PROFILE)"
    by (rule pearson_pc[OF l]; simp add: profile_lengths)+
  then show ?thesis
    by (simp add: try_root_def Let_def upd_def cand_def)
qed

lemma find_loop_foldl:
  assumes "length h = 12"
  shows "find_loop h b rs = Inr (foldl upd b (cands h rs))"
  by (induction rs arbitrary: b) (simp_all add: try_root_upd[OF assms] cands_def)

lemma foldl_upd_stay:
  "\<forall>c\<in>set cs. best_correlation c \<le> best_correlation b \<Longrightarrow> foldl upd b cs = b"
  by (induction cs) (simp_all add: upd_def)

lemma foldl_upd_first_max:
  assumes "i < length cs"
    and "best_correlation b < best_correlation (cs ! i)"
    and "\<forall>j<length cs. best_correlation (cs ! j) \<le> best_correlation (cs ! i)"
    and "\<forall>j<i. best_correlation (cs ! j) < best_correlation (cs ! i)"
  shows "foldl upd b cs = cs ! i"
  using assms
proof (induction cs arbitrary: b i)
  case Nil
  then show ?case by simp
next
  case (Cons c cs)
  show ?case
  proof (cases i)
    case 0
    with Cons.prems have u: "upd b c = c" by (simp add: upd_def)
    have "\<forall>c'\<in>set cs. best_correlation c' \<le> best_correlation c"
    proof
      fix c' assume "c' \<in> set cs"
      then obtain j where "j < length cs" "cs ! j = c'" by (auto simp: in_set_conv_nth)
      with Cons.prems(3) 0 show "best_correlation c' \<le> best_correlation c"
        by (auto dest: spec[where x = "Suc j"])
    qed
    then show ?thesis using 0 u by (simp add: foldl_upd_stay)
  next
    case (Suc k)
    from Cons.prems(4) Suc have c: "best_correlation c < best_correlation (cs ! k)"
      by (auto dest: spec[where x = 0])
    have 1: "k < length cs" using Cons.prems(1) Suc by simp
    have 2: "best_correlation (upd b c) < best_correlation (cs ! k)"
      using c Cons.prems(2) Suc by (simp add: upd_def)
    have 3: "\<forall>j<length cs. best_correlation (cs ! j) \<le> best_correlation (cs ! k)"
      using Cons.prems(3) Suc by (auto dest: spec[where x = "Suc j" for j])
    have 4: "\<forall>j<k. best_correlation (cs ! j) < best_correlation (cs ! k)"
      using Cons.prems(4) Suc by (auto dest: spec[where x = "Suc j" for j])
    from Cons.IH[OF 1 2 3 4] Suc show ?thesis by simp
  qed
qed


lemma length_cands: "length (cands h [0..<n]) = 2 * n"
  by (induction n) (simp_all add: cands_def)

lemma cands_nth:
  "i < 2 * n \<Longrightarrow> cands h [0..<n] ! i = cand h (i div 2) (odd i)"
proof (induction n)
  case 0
  then show ?case by simp
next
  case (Suc n)
  have a: "cands h [0..<Suc n] = cands h [0..<n] @ [cand h n False, cand h n True]"
    by (simp add: cands_def)
  show ?case
  proof (cases "i < 2 * n")
    case True
    then show ?thesis unfolding a by (simp add: nth_append length_cands Suc.IH)
  next
    case False
    with Suc.prems have "i = 2 * n \<or> i = Suc (2 * n)" by arith
    then show ?thesis
      unfolding a by (auto simp: nth_append length_cands)
  qed
qed





subsection \<open>Correlations between the rotated reference profiles\<close>

lemma upt12: "[0..<12] = [0, 1, 2, 3, 4, 5, 6, 7, 8, 9, 10, 11]"
  by code_simp

lemma dot12:
  "dot [x0, x1, x2, x3, x4, x5, x6, x7, x8, x9, x10, x11] y =
     x0 * y ! 0 + x1 * y ! 1 + x2 * y ! 2 + x3 * y ! 3 + x4 * y ! 4 + x5 * y ! 5 +
     x6 * y ! 6 + x7 * y ! 7 + x8 * y ! 8 + x9 * y ! 9 + x10 * y ! 10 + x11 * y ! 11"
proof -
  have "length [x0, x1, x2, x3, x4, x5, x6, x7, x8, x9, x10, x11] = 12" by simp
  then show ?thesis unfolding dot_def by (simp only: upt12) (simp add: add.assoc)
qed

lemma dot_major_major:
  "list_all (\<lambda>d. d \<noteq> 0 \<longrightarrow> dot (rotate d MAJOR_PROFILE) MAJOR_PROFILE < 161) [0..<12]"
  unfolding upt12 by (simp add: MAJOR_PROFILE_def rotate_drop_take dot12)

lemma dot_minor_minor:
  "list_all (\<lambda>d. d \<noteq> 0 \<longrightarrow> dot (rotate d MINOR_PROFILE) MINOR_PROFILE < 181) [0..<12]"
  unfolding upt12 by (simp add: MINOR_PROFILE_def rotate_drop_take dot12)

lemma dot_major_minor:
  "list_all (\<lambda>d. dot (rotate d MAJOR_PROFILE) MINOR_PROFILE < 171) [0..<12]"
  unfolding upt12 by (simp add: MAJOR_PROFILE_def MINOR_PROFILE_def rotate_drop_take dot12)

lemma dot_minor_major:
  "list_all (\<lambda>d. dot (rotate d MINOR_PROFILE) MAJOR_PROFILE < 171) [0..<12]"
  unfolding upt12 by (simp add: MAJOR_PROFILE_def MINOR_PROFILE_def rotate_drop_take dot12)

lemma pos_prod_nonzero: "0 < a * (b::real) \<Longrightarrow> a \<noteq> 0 \<and> b \<noteq> 0"
  by auto

lemma pc_rotated_lt_1:
  fixes P Q :: "real list"
  assumes "length P = 12" "length Q = 12"
    and "256 \<le> (dot P P - (sum_list P)\<^sup>2 / 12) * (dot Q Q - (sum_list Q)\<^sup>2 / 12)"
    and "dot (rotate d P) Q < 16 + sum_list P * sum_list Q / 12"
  shows "pc (rotate d P) Q < 1"
proof -
  let ?vp = "dot P P - (sum_list P)\<^sup>2 / 12" and ?vq = "dot Q Q - (sum_list Q)\<^sup>2 / 12"
  have vp: "dot (rotate d P) (rotate d P) = dot P P"
    using assms(1) by (simp add: dot_rotate_rotate[where n = 12])
  have "0 < ?vp * ?vq" using assms(3) by linarith
  then have "?vp \<noteq> 0 \<and> ?vq \<noteq> 0" by (rule pos_prod_nonzero)
  then have nz: "?vp \<noteq> 0" "?vq \<noteq> 0" by blast+
  have "(16::real)\<^sup>2 \<le> ?vp * ?vq" using assms(3) by simp
  then have s: "16 \<le> sqrt (?vp * ?vq)" by (rule real_le_rsqrt)
  define S where "S = sqrt (?vp * ?vq)"
  define N where "N = dot (rotate d P) Q - sum_list P * sum_list Q / 12"
  have "16 \<le> S" using s by (simp only: S_def)
  moreover have "N < 16" using assms(4) by (simp add: N_def)
  ultimately have "N < S" "0 < S" by linarith+
  then have "N / S < 1" by simp
  then have "(dot (rotate d P) Q - sum_list P * sum_list Q / 12) / sqrt (?vp * ?vq) < 1"
    by (simp only: S_def N_def)
  then show ?thesis
    using nz assms(1) by (simp add: pc_def Let_def vp sum_list_rotate)
qed

lemma pc_self_1:
  fixes P :: "real list"
  assumes "length P = 12" "0 < dot P P - (sum_list P)\<^sup>2 / 12"
  shows "pc P P = 1"
  using assms by (simp add: pc_def Let_def power2_eq_square[symmetric])

lemma var_major: "dot MAJOR_PROFILE MAJOR_PROFILE - (sum_list MAJOR_PROFILE)\<^sup>2 / 12 = 765849 / 40000"
  by (simp add: MAJOR_PROFILE_def dot12 power2_eq_square)

lemma var_minor: "dot MINOR_PROFILE MINOR_PROFILE - (sum_list MINOR_PROFILE)\<^sup>2 / 12 = 1920851 / 120000"
  by (simp add: MINOR_PROFILE_def dot12 power2_eq_square)

lemma sum_major: "sum_list MAJOR_PROFILE = 4179 / 100"
  by (simp add: MAJOR_PROFILE_def)

lemma sum_minor: "sum_list MINOR_PROFILE = 4451 / 100"
  by (simp add: MINOR_PROFILE_def)

lemma pc_major_major:
  assumes "d < 12" "d \<noteq> 0"
  shows "pc (rotate d MAJOR_PROFILE) MAJOR_PROFILE < 1"
proof (rule pc_rotated_lt_1)
  have "d \<in> set [0..<12]" using assms by simp
  with dot_major_major assms(2) have "dot (rotate d MAJOR_PROFILE) MAJOR_PROFILE < 161"
    unfolding list_all_iff by blast
  then show "dot (rotate d MAJOR_PROFILE) MAJOR_PROFILE
      < 16 + sum_list MAJOR_PROFILE * sum_list MAJOR_PROFILE / 12"
    unfolding sum_major by simp
  show "256 \<le> (dot MAJOR_PROFILE MAJOR_PROFILE - (sum_list MAJOR_PROFILE)\<^sup>2 / 12) *
               (dot MAJOR_PROFILE MAJOR_PROFILE - (sum_list MAJOR_PROFILE)\<^sup>2 / 12)"
    unfolding var_major by simp
qed (rule profile_lengths)+

lemma pc_minor_minor:
  assumes "d < 12" "d \<noteq> 0"
  shows "pc (rotate d MINOR_PROFILE) MINOR_PROFILE < 1"
proof (rule pc_rotated_lt_1)
  have "d \<in> set [0..<12]" using assms by simp
  with dot_minor_minor assms(2) have "dot (rotate d MINOR_PROFILE) MINOR_PROFILE < 181"
    unfolding list_all_iff by blast
  then show "dot (rotate d MINOR_PROFILE) MINOR_PROFILE
      < 16 + sum_list MINOR_PROFILE * sum_list MINOR_PROFILE / 12"
    unfolding sum_minor by simp
  show "256 \<le> (dot MINOR_PROFILE MINOR_PROFILE - (sum_list MINOR_PROFILE)\<^sup>2 / 12) *
               (dot MINOR_PROFILE MINOR_PROFILE - (sum_list MINOR_PROFILE)\<^sup>2 / 12)"
    unfolding var_minor by simp
qed (rule profile_lengths)+

lemma pc_major_minor:
  assumes "d < 12"
  shows "pc (rotate d MAJOR_PROFILE) MINOR_PROFILE < 1"
proof (rule pc_rotated_lt_1)
  have "d \<in> set [0..<12]" using assms by simp
  with dot_major_minor have "dot (rotate d MAJOR_PROFILE) MINOR_PROFILE < 171"
    unfolding list_all_iff by blast
  then show "dot (rotate d MAJOR_PROFILE) MINOR_PROFILE
      < 16 + sum_list MAJOR_PROFILE * sum_list MINOR_PROFILE / 12"
    unfolding sum_major sum_minor by simp
  show "256 \<le> (dot MAJOR_PROFILE MAJOR_PROFILE - (sum_list MAJOR_PROFILE)\<^sup>2 / 12) *
               (dot MINOR_PROFILE MINOR_PROFILE - (sum_list MINOR_PROFILE)\<^sup>2 / 12)"
    unfolding var_major var_minor by simp
qed (rule profile_lengths)+

lemma pc_minor_major:
  assumes "d < 12"
  shows "pc (rotate d MINOR_PROFILE) MAJOR_PROFILE < 1"
proof (rule pc_rotated_lt_1)
  have "d \<in> set [0..<12]" using assms by simp
  with dot_minor_major have "dot (rotate d MINOR_PROFILE) MAJOR_PROFILE < 171"
    unfolding list_all_iff by blast
  then show "dot (rotate d MINOR_PROFILE) MAJOR_PROFILE
      < 16 + sum_list MINOR_PROFILE * sum_list MAJOR_PROFILE / 12"
    unfolding sum_major sum_minor by simp
  show "256 \<le> (dot MINOR_PROFILE MINOR_PROFILE - (sum_list MINOR_PROFILE)\<^sup>2 / 12) *
               (dot MAJOR_PROFILE MAJOR_PROFILE - (sum_list MAJOR_PROFILE)\<^sup>2 / 12)"
    unfolding var_major var_minor by simp
qed (rule profile_lengths)+

lemma profile_correlations:
  assumes "d < 12"
  shows "pc (profile m) (profile m) = 1"
    and "d \<noteq> 0 \<or> m \<noteq> m' \<Longrightarrow> pc (rotate d (profile m)) (profile m') < 1"
proof -
  have "pc MAJOR_PROFILE MAJOR_PROFILE = 1"
    by (rule pc_self_1[OF profile_lengths(1)]) (simp add: var_major)
  moreover have "pc MINOR_PROFILE MINOR_PROFILE = 1"
    by (rule pc_self_1[OF profile_lengths(2)]) (simp add: var_minor)
  ultimately show "pc (profile m) (profile m) = 1"
    by (simp add: profile_def)
  assume ne: "d \<noteq> 0 \<or> m \<noteq> m'"
  show "pc (rotate d (profile m)) (profile m') < 1"
  proof (cases m; cases m')
    assume "m" "m'"
    with ne assms show ?thesis by (simp add: profile_def pc_minor_minor)
  next
    assume "m" "\<not> m'"
    with assms show ?thesis by (simp add: profile_def pc_minor_major)
  next
    assume "\<not> m" "m'"
    with assms show ?thesis by (simp add: profile_def pc_major_minor)
  next
    assume "\<not> m" "\<not> m'"
    with ne assms show ?thesis by (simp add: profile_def pc_major_major)
  qed
qed

lemma rotation_offset_zero:
  fixes k r :: nat
  shows "k < 12 \<Longrightarrow> r < 12 \<Longrightarrow> (k + (12 - r)) mod 12 = 0 \<Longrightarrow> k = r"
  by presburger

lemma index_of_candidate:
  fixes j r :: nat
  assumes "j div 2 = r"
  shows "j = 2 * r + (if odd j then 1 else 0)"
proof (cases "odd j")
  case True
  with assms have "j = 2 * r + 1" by presburger
  with True show ?thesis by simp
next
  case False
  with assms have "j = 2 * r" by presburger
  with False show ?thesis by simp
qed

text \<open>
  Claim C5. A histogram that is the major or the minor reference profile placed at root
  \<open>root_note\<close> (rotating the histogram by \<open>root_note\<close> gives the profile) is labelled with that root and mode, with a confidence of at least 0.9.
\<close>

theorem find_best_key_exact_profile:
  assumes "length histogram = 12" and "root_note < 12"
    and "drop root_note histogram @ take root_note histogram
           = (if minor then MINOR_PROFILE else MAJOR_PROFILE)"
  shows "\<exists>confidence.
           find_best_key histogram =
             Inr (NOTE_NAMES ! root_note @ '' '' @ (if minor then ''Minor'' else ''Major''),
                  confidence) \<and>
           0.9 \<le> confidence"
proof -
  let ?cs = "cands histogram [0..<12]"
  let ?b0 = "\<lparr>best_correlation = - 1, best_key = ''unknown'', best_mode = ''Major''\<rparr>"
  let ?i = "2 * root_note + (if minor then 1 else 0)"
  have len: "length ?cs = 24" by (simp add: length_cands)
  have rP: "rotate root_note histogram = profile minor"
    using assms by (simp add: slice_rotate profile_def)
  have "rotate (12 - root_note) (rotate root_note histogram) = histogram"
    using assms(1,2) by (simp add: rotate_rotate)
  then have h: "histogram = rotate (12 - root_note) (profile minor)"
    by (simp add: rP)
  have lp: "length (profile m) = 12" for m by (simp add: profile_def profile_lengths)
  have val: "best_correlation (cand histogram k m) =
               pc (rotate ((k + (12 - root_note)) mod 12) (profile minor)) (profile m)"
    if "k < 12" for k m
  proof -
    have "drop k histogram @ take k histogram = rotate k histogram"
      using that assms(1) by (simp add: slice_rotate)
    also have "\<dots> = rotate (k + (12 - root_note)) (profile minor)"
      by (subst h) (simp add: rotate_rotate)
    also have "\<dots> = rotate ((k + (12 - root_note)) mod 12) (profile minor)"
      using rotate_conv_mod[of "k + (12 - root_note)" "profile minor"] by (simp add: lp)
    finally show ?thesis by (simp add: cand_def profile_def)
  qed
  have i24: "?i < 24" using assms(2) by simp
  have di: "?i div 2 = root_note" "odd ?i = minor" by simp_all
  have "?cs ! ?i = cand histogram (?i div 2) (odd ?i)"
    using i24 by (intro cands_nth) simp
  then have ci: "?cs ! ?i = cand histogram root_note minor" by (simp only: di)
  have "(root_note + (12 - root_note)) mod 12 = 0" using assms(2) by simp
  then have vi: "best_correlation (?cs ! ?i) = 1"
    using val[OF assms(2), of minor] profile_correlations(1)[of 0 minor] by (simp add: ci)
  have bound: "best_correlation (?cs ! j) \<le> 1 \<and> (j < ?i \<longrightarrow> best_correlation (?cs ! j) < 1)"
    if j: "j < 24" for j
  proof -
    let ?k = "j div 2" and ?m = "odd j"
    let ?d = "(?k + (12 - root_note)) mod 12"
    have k: "?k < 12" using j by simp
    have cj: "?cs ! j = cand histogram ?k ?m" using j by (intro cands_nth) simp
    have d: "?d < 12" by simp
    have v: "best_correlation (?cs ! j) = pc (rotate ?d (profile minor)) (profile ?m)"
      using val[OF k] by (simp add: cj)
    show ?thesis
    proof (cases "?d \<noteq> 0 \<or> minor \<noteq> ?m")
      case True
      then have "pc (rotate ?d (profile minor)) (profile ?m) < 1"
        by (rule profile_correlations(2)[OF d])
      then show ?thesis by (simp add: v)
    next
      case False
      then have z: "?d = 0" and m: "?m = minor" by auto
      from k assms(2) z have "?k = root_note" by (rule rotation_offset_zero)
      then have "j = 2 * root_note + (if odd j then 1 else 0)" by (rule index_of_candidate)
      with m have "j = ?i" by simp
      with vi show ?thesis by simp
    qed
  qed
  have "foldl upd ?b0 ?cs = ?cs ! ?i"
    using i24 len vi bound by (intro foldl_upd_first_max) (simp_all add: vi)
  then have "find_best_key histogram =
      Inr (best_key (?cs ! ?i) @ '' '' @ best_mode (?cs ! ?i),
           max 0 (min 1 ((best_correlation (?cs ! ?i) + 1) / 2)))"
    by (simp add: find_best_key_def find_loop_foldl[OF assms(1)])
  then have "find_best_key histogram =
      Inr (NOTE_NAMES ! root_note @ '' '' @ (if minor then ''Minor'' else ''Major''), 1)"
    unfolding vi unfolding ci by (simp add: cand_def)
  then show ?thesis by simp
qed

theorem find_best_key_exact_profile_witness:
  "length [5.38, 2.60, 3.53, 2.54, 4.75, 3.98, 2.69, 3.34, 3.17, 6.33, 2.68, 3.52 :: real] = 12 \<and>
   (9::nat) < 12 \<and>
   drop 9 [5.38, 2.60, 3.53, 2.54, 4.75, 3.98, 2.69, 3.34, 3.17, 6.33, 2.68, 3.52 :: real] @
     take 9 [5.38, 2.60, 3.53, 2.54, 4.75, 3.98, 2.69, 3.34, 3.17, 6.33, 2.68, 3.52]
     = MINOR_PROFILE \<and>
   (\<exists>confidence.
      find_best_key [5.38, 2.60, 3.53, 2.54, 4.75, 3.98, 2.69, 3.34, 3.17, 6.33, 2.68, 3.52]
        = Inr (''A Minor'', confidence) \<and>
      0.9 \<le> confidence)"
proof -
  let ?h = "[5.38, 2.60, 3.53, 2.54, 4.75, 3.98, 2.69, 3.34, 3.17, 6.33, 2.68, 3.52 :: real]"
  have a: "length ?h = 12" "(9::nat) < 12" by simp_all
  have b: "drop 9 ?h @ take 9 ?h = (if True then MINOR_PROFILE else MAJOR_PROFILE)"
    by (simp add: MINOR_PROFILE_def)
  have n: "NOTE_NAMES ! 9 = ''A''" by (simp add: NOTE_NAMES_def)
  from find_best_key_exact_profile[OF a b] a b n show ?thesis by simp
qed


end
